theory Spec2Isabelle
  imports Complex_Main "HOL-Library.Multiset" "HOL-Library.Sublist"
begin

text \<open>
  A shallow embedding of the core of the Smart Traffic Management System front end: the
  signal arbitration of the dashboard, the route service (bounds, fallback curve, route
  acquisition), the merge of traffic observations with its statistics, the route
  recommendations and the fuzzy place resolver. Each function is translated from its
  JavaScript source and keeps its name; the definitions come first, the theorems follow.
\<close>

section \<open>Signal arbitration (TrafficDashboard.js)\<close>

text \<open>
  The dashboard state \<open>trafficData\<close> is an object whose keys \<open>lane_1\<close>, \<open>lane_2\<close>,
  \<open>lane_3\<close> hold an object from vehicle type to count. It is modelled as a map from
  the lane key to the list of (vehicle type, count) entries; a missing lane is \<open>None\<close>
  and is read as the empty object, as \<open>trafficData[lane] || {}\<close> does.
\<close>

type_synonym lane_counts = "(string \<times> int) list"
type_synonym dashboard_data = "string \<rightharpoonup> lane_counts"

record signalState =
  lane_1 :: string
  lane_2 :: string
  lane_3 :: string

definition getTotal :: "dashboard_data \<Rightarrow> string \<Rightarrow> int" where
  "getTotal trafficData lane =
     foldl (\<lambda>a b. a + b) 0 (map snd (case trafficData lane of None \<Rightarrow> [] | Some obj \<Rightarrow> obj))"

definition updateSignals :: "dashboard_data \<Rightarrow> signalState" where
  "updateSignals trafficData =
     (let l1 = getTotal trafficData ''lane_1'';
          l2 = getTotal trafficData ''lane_2'';
          l3 = getTotal trafficData ''lane_3'';
          (minLane, minValue) = (''lane_1'', l1);
          (minLane, minValue) = (if l2 < minValue then (''lane_2'', l2) else (minLane, minValue));
          (minLane, minValue) = (if l3 < minValue then (''lane_3'', l3) else (minLane, minValue))
      in \<lparr> lane_1 = (if minLane = ''lane_1'' then ''green'' else ''red''),
           lane_2 = (if minLane = ''lane_2'' then ''green'' else ''red''),
           lane_3 = (if minLane = ''lane_3'' then ''green'' else ''red'') \<rparr>)"

text \<open>The three lanes in arbitration order, and the signal of the lane at a position.\<close>

definition laneOrder :: "string list" where
  "laneOrder = [''lane_1'', ''lane_2'', ''lane_3'']"

definition signalAt :: "signalState \<Rightarrow> nat \<Rightarrow> string" where
  "signalAt s i = [lane_1 s, lane_2 s, lane_3 s] ! i"

section \<open>Route geometry, bounds and acquisition (TrafficMap.js, RouteService)\<close>

text \<open>
  A coordinate is the array \<open>[lat, lng]\<close>, a pair of real numbers; a bounds box is the
  pair of its south-west and north-east corners. JavaScript numbers are modelled as reals:
  rounding, \<open>NaN\<close> and the infinities are outside the model.
\<close>

type_synonym coord = "real \<times> real"
type_synonym box = "coord \<times> coord"

text \<open>
  \<open>Math.min(...xs)\<close> and \<open>Math.max(...xs)\<close> on a non-empty argument list; every call
  below is guarded by a length check.
\<close>

fun Math_min :: "real list \<Rightarrow> real" where
  "Math_min (x # xs) = fold min xs x"

fun Math_max :: "real list \<Rightarrow> real" where
  "Math_max (x # xs) = fold max xs x"

text \<open>\<open>calculateRouteBounds\<close>; \<open>None\<close> as argument is \<open>null\<close>, \<open>None\<close> as result is \<open>null\<close>.\<close>

definition calculateRouteBounds :: "coord list option \<Rightarrow> box option" where
  "calculateRouteBounds coordinates =
     (case coordinates of
        None \<Rightarrow> None
      | Some cs \<Rightarrow>
          if length cs = 0 then None
          else
            let lats = map fst cs;
                lngs = map snd cs
            in Some ((Math_min lats, Math_min lngs), (Math_max lats, Math_max lngs)))"

text \<open>
  The test \<open>p && p[0] && p[1]\<close>: the entry is present and both numbers are truthy, that
  is, non-zero. The same test guards the start and end coordinates of \<open>getRoute\<close> and
  \<open>autoCalculateRoute\<close>.
\<close>

definition truthyPoint :: "coord option \<Rightarrow> bool" where
  "truthyPoint p = (case p of None \<Rightarrow> False | Some c \<Rightarrow> fst c \<noteq> 0 \<and> snd c \<noteq> 0)"

definition calculateBoundsFromPoints :: "coord option list option \<Rightarrow> box option" where
  "calculateBoundsFromPoints points =
     (case points of
        None \<Rightarrow> None
      | Some ps \<Rightarrow>
          if length ps = 0 then None
          else
            let validPoints = map the (filter truthyPoint ps)
            in if length validPoints = 0 then None
               else
                 let lats = map fst validPoints;
                     lngs = map snd validPoints
                 in Some ((Math_min lats, Math_min lngs), (Math_max lats, Math_max lngs)))"

text \<open>A coordinate lies within a bounds box.\<close>

definition inBox :: "box \<Rightarrow> coord \<Rightarrow> bool" where
  "inBox b c \<longleftrightarrow>
     fst (fst b) \<le> fst c \<and> fst c \<le> fst (snd b) \<and>
     snd (fst b) \<le> snd c \<and> snd c \<le> snd (snd b)"

text \<open>
  \<open>createCurvedRoute\<close>. The two calls of \<open>Math.random()\<close> are the parameters
  \<open>random1\<close> and \<open>random2\<close>; the \<open>for\<close> loop over \<open>i = 0 .. numPoints\<close> is \<open>curveLoop\<close>,
  which pushes one point per round.
\<close>

definition numPoints :: nat where
  "numPoints = 20"

function curveLoop :: "coord \<Rightarrow> coord \<Rightarrow> real \<Rightarrow> real \<Rightarrow> nat \<Rightarrow> coord list \<Rightarrow> coord list" where
  "curveLoop start end controlLat controlLng i points =
     (if i \<le> numPoints then
        let t = real i / real numPoints;
            lat = (1 - t)\<^sup>2 * fst start + 2 * (1 - t) * t * controlLat + t\<^sup>2 * fst end;
            lng = (1 - t)\<^sup>2 * snd start + 2 * (1 - t) * t * controlLng + t\<^sup>2 * snd end
        in curveLoop start end controlLat controlLng (i + 1) (points @ [(lat, lng)])
      else points)"
  by pat_completeness auto
termination
  by (relation "measure (\<lambda>(start, end, controlLat, controlLng, i, points). Suc numPoints - i)") auto

declare curveLoop.simps [simp del]

definition createCurvedRoute :: "coord option \<Rightarrow> coord option \<Rightarrow> real \<Rightarrow> real \<Rightarrow> coord list" where
  "createCurvedRoute start end random1 random2 =
     (case (start, end) of
        (Some s, Some e) \<Rightarrow>
          let midLat = (fst s + fst e) / 2;
              midLng = (snd s + snd e) / 2;
              controlLat = midLat + (random1 - 0.5) * 0.01;
              controlLng = midLng + (random2 - 0.5) * 0.01
          in curveLoop s e controlLat controlLng 0 []
      | _ \<Rightarrow> [])"


text \<open>\<open>calculateDistance\<close>, the haversine great-circle distance in metres.\<close>

definition Math_atan2 :: "real \<Rightarrow> real \<Rightarrow> real" where
  "Math_atan2 y x =
     (if x > 0 then arctan (y / x)
      else if x < 0 \<and> y \<ge> 0 then arctan (y / x) + pi
      else if x < 0 \<and> y < 0 then arctan (y / x) - pi
      else if y > 0 then pi / 2
      else if y < 0 then - pi / 2
      else 0)"

definition calculateDistance :: "real \<Rightarrow> real \<Rightarrow> real \<Rightarrow> real \<Rightarrow> real" where
  "calculateDistance lat1 lng1 lat2 lng2 =
     (let R = 6371000;
          phi1 = lat1 * pi / 180;
          phi2 = lat2 * pi / 180;
          dphi = (lat2 - lat1) * pi / 180;
          dlambda = (lng2 - lng1) * pi / 180;
          a = sin (dphi / 2) * sin (dphi / 2) +
              cos phi1 * cos phi2 * sin (dlambda / 2) * sin (dlambda / 2);
          c = 2 * Math_atan2 (sqrt a) (sqrt (1 - a))
      in R * c)"

text \<open>
  A route object. \<open>confidence\<close> is \<open>None\<close> where JavaScript computes \<open>NaN\<close> or an
  infinity; \<open>isFallback\<close> is false where the key is absent. The keys \<open>steps\<close>, \<open>summary\<close>,
  \<open>congestion_level\<close>, \<open>avg_speed\<close>, \<open>isAiOptimized\<close> and \<open>isEnhanced\<close> are display data
  and are left out.
\<close>

record route =
  geometry :: "coord list"
  distance :: real
  duration :: real
  confidence :: "real option"
  isFallback :: bool
  type :: string
  bounds :: "box option"

text \<open>
  One route of the external router's response: \<open>geometry.coordinates\<close> in the router's
  \<open>[lng, lat]\<close> order, \<open>distance\<close> and \<open>duration\<close>, each possibly absent. The request
  either fails (a timeout or transport error, caught by \<open>getRoute\<close>) or answers with a
  possibly absent list of routes.
\<close>

record osrmRoute =
  osrm_coordinates :: "coord list option"
  osrm_distance :: "real option"
  osrm_duration :: "real option"

datatype osrmOutcome = OsrmFailure | OsrmResponse "osrmRoute list option"

datatype routeError = InvalidCoordinates

definition getRouteType :: "osrmRoute \<Rightarrow> nat \<Rightarrow> string" where
  "getRouteType r index =
     (if index = 0 then ''OPTIMAL''
      else if (case osrm_distance r of Some d \<Rightarrow> d < d * 1.2 | None \<Rightarrow> False) then ''ALTERNATIVE''
      else if (case osrm_duration r of Some d \<Rightarrow> d < d * 1.3 | None \<Rightarrow> False) then ''TIME_SAVER''
      else ''SCENIC'')"

definition osrmConfidence :: "real option \<Rightarrow> real option \<Rightarrow> real option" where
  "osrmConfidence du di =
     (case (du, di) of
        (Some du', Some di') \<Rightarrow>
          if di' \<noteq> 0 then Some (min 0.95 ((du' / 60) / (di' / 1000 * 60 * 3)))
          else if du' > 0 then Some 0.95
          else None
      | _ \<Rightarrow> None)"

definition osrmToRoute :: "osrmRoute \<Rightarrow> nat \<Rightarrow> route" where
  "osrmToRoute r index =
     (let geometry = (case osrm_coordinates r of
                        Some cs \<Rightarrow> map (\<lambda>coord. (snd coord, fst coord)) cs
                      | None \<Rightarrow> [])
      in \<lparr> geometry = geometry,
           distance = (case osrm_distance r of Some d \<Rightarrow> d | None \<Rightarrow> 0),
           duration = (case osrm_duration r of Some d \<Rightarrow> d | None \<Rightarrow> 0),
           confidence = osrmConfidence (osrm_duration r) (osrm_distance r),
           isFallback = False,
           type = getRouteType r index,
           bounds = (if length geometry > 0 then calculateRouteBounds (Some geometry) else None) \<rparr>)"

text \<open>
  The synthetic route built in the \<open>catch\<close> branch of \<open>getRoute\<close> and, with the same
  code, in the \<open>catch\<close> branch of \<open>autoCalculateRoute\<close>.
\<close>

definition fallbackRoute :: "coord \<Rightarrow> coord \<Rightarrow> real \<Rightarrow> real \<Rightarrow> route" where
  "fallbackRoute start end random1 random2 =
     (let fallbackGeometry = createCurvedRoute (Some start) (Some end) random1 random2
      in \<lparr> geometry = fallbackGeometry,
           distance = calculateDistance (fst start) (snd start) (fst end) (snd end),
           duration = calculateDistance (fst start) (snd start) (fst end) (snd end) / 1000 * 60 * 3,
           confidence = Some 0.3,
           isFallback = True,
           type = ''DIRECT'',
           bounds = calculateBoundsFromPoints
                      (Some (Some start # Some end # map Some fallbackGeometry)) \<rparr>)"

text \<open>
  \<open>getRoute\<close>: \<open>Inl\<close> is the thrown error, \<open>Inr None\<close> the result \<open>null\<close>.
\<close>

definition getRoute ::
  "coord option \<Rightarrow> coord option \<Rightarrow> osrmOutcome \<Rightarrow> real \<Rightarrow> real \<Rightarrow> routeError + route list option" where
  "getRoute start end osrm random1 random2 =
     (if \<not> truthyPoint start \<or> \<not> truthyPoint end then Inl InvalidCoordinates
      else
        case osrm of
          OsrmResponse (Some rs) \<Rightarrow>
            if length rs > 0 then Inr (Some (map (\<lambda>(r, index). osrmToRoute r index) (zip rs [0..<length rs])))
            else Inr None
        | OsrmResponse None \<Rightarrow> Inr None
        | OsrmFailure \<Rightarrow> Inr (Some [fallbackRoute (the start) (the end) random1 random2]))"

text \<open>
  The answers of the two server endpoints; \<open>None\<close> for an answer is the \<open>null\<close> that
  \<open>fetchOptimizedRoute\<close> and \<open>startEndRoute\<close> return when the request fails. A path is
  the list of its \<open>(lat, lng)\<close> points.
\<close>

record optimalRoute =
  path :: "coord list option"
  distance_km :: "real option"
  estimated_time_min :: "real option"
  optimal_confidence :: "real option"

record optimizedResponse =
  optimal_route :: "optimalRoute option"

record startEndResponse =
  se_path :: "coord list option"
  se_distance_km :: "real option"
  se_estimated_time_min :: "real option"

definition aiRoute :: "optimalRoute \<Rightarrow> route" where
  "aiRoute opt =
     \<lparr> geometry = (case path opt of Some ps \<Rightarrow> ps | None \<Rightarrow> []),
       distance = (case distance_km opt of Some d \<Rightarrow> d | None \<Rightarrow> 0) * 1000,
       duration = (case estimated_time_min opt of Some m \<Rightarrow> m | None \<Rightarrow> 0) * 60,
       confidence = Some (case optimal_confidence opt of
                            Some c \<Rightarrow> if c = 0 then 0.9 else c
                          | None \<Rightarrow> 0.9),
       isFallback = False,
       type = ''AI_OPTIMIZED'',
       bounds = (case path opt of
                   Some ps \<Rightarrow>
                     if length ps > 0 then calculateBoundsFromPoints (Some (map Some ps)) else None
                 | None \<Rightarrow> None) \<rparr>"

definition fetchAiOptimizedRoute ::
  "coord option \<Rightarrow> coord option \<Rightarrow> optimizedResponse option \<Rightarrow> route list \<Rightarrow> route list" where
  "fetchAiOptimizedRoute start end optimizedRoute routes =
     (if start = None \<or> end = None then routes
      else
        case optimizedRoute of
          Some resp \<Rightarrow>
            (case optimal_route resp of
               Some opt \<Rightarrow> aiRoute opt # routes
             | None \<Rightarrow> routes)
        | None \<Rightarrow> routes)"

definition enhancedRoute :: "startEndResponse \<Rightarrow> coord list \<Rightarrow> route" where
  "enhancedRoute startEndRoute ps =
     \<lparr> geometry = ps,
       distance = (case se_distance_km startEndRoute of Some d \<Rightarrow> d | None \<Rightarrow> 0) * 1000,
       duration = (case se_estimated_time_min startEndRoute of Some m \<Rightarrow> m | None \<Rightarrow> 0) * 60,
       confidence = Some 0.8,
       isFallback = False,
       type = ''ENHANCED_ROUTE'',
       bounds = (if length ps > 0 then calculateBoundsFromPoints (Some (map Some ps)) else None) \<rparr>"

text \<open>
  \<open>autoCalculateRoute\<close>, as a function from the route list before the call and the
  answers of the three sources to the route list after it. The updates
  \<open>setRoutes(prev => ...)\<close> are applied in order; a \<open>throw\<close> inside the \<open>try\<close> block
  leads to the \<open>catch\<close> branch, which replaces the list by the fallback route.
\<close>

definition autoCalculateRoute ::
  "route list \<Rightarrow> coord option \<Rightarrow> coord option \<Rightarrow> optimizedResponse option \<Rightarrow>
   startEndResponse option \<Rightarrow> osrmOutcome \<Rightarrow> real \<Rightarrow> real \<Rightarrow> real \<Rightarrow> real \<Rightarrow> route list" where
  "autoCalculateRoute routes0 selectedStart selectedEnd optimizedRoute startEndRoute osrm
       random1 random2 random3 random4 =
     (if \<not> truthyPoint selectedStart \<or> \<not> truthyPoint selectedEnd then routes0
      else
        let routes = [];
            routes = fetchAiOptimizedRoute selectedStart selectedEnd optimizedRoute routes;
            routes = (case startEndRoute of
                        Some resp \<Rightarrow>
                          (case se_path resp of
                             Some ps \<Rightarrow> routes @ [enhancedRoute resp ps]
                           | None \<Rightarrow> routes)
                      | None \<Rightarrow> routes);
            fallback = [fallbackRoute (the selectedStart) (the selectedEnd) random3 random4]
        in case getRoute selectedStart selectedEnd osrm random1 random2 of
             Inr (Some routeOptions) \<Rightarrow>
               if length routeOptions > 0 then
                 let validRoutes = filter (\<lambda>route. length (geometry route) > 0) routeOptions
                 in if length validRoutes > 0 then routes @ validRoutes else fallback
               else fallback
           | Inr None \<Rightarrow> fallback
           | Inl err \<Rightarrow> fallback)"

text \<open>
  The quadratic Bezier curve with end points \<open>p0\<close>, \<open>p2\<close> and control point \<open>p1\<close>, and
  the control point \<open>createCurvedRoute\<close> draws.
\<close>

definition quadraticBezier :: "coord \<Rightarrow> coord \<Rightarrow> coord \<Rightarrow> real \<Rightarrow> coord" where
  "quadraticBezier p0 p1 p2 t =
     ((1 - t)\<^sup>2 * fst p0 + 2 * (1 - t) * t * fst p1 + t\<^sup>2 * fst p2,
      (1 - t)\<^sup>2 * snd p0 + 2 * (1 - t) * t * snd p1 + t\<^sup>2 * snd p2)"

definition controlPoint :: "coord \<Rightarrow> coord \<Rightarrow> real \<Rightarrow> real \<Rightarrow> coord" where
  "controlPoint s e random1 random2 =
     ((fst s + fst e) / 2 + (random1 - 0.5) * 0.01, (snd s + snd e) / 2 + (random2 - 0.5) * 0.01)"

text \<open>The routes each source contributes to the list when it succeeds.\<close>

definition aiPart :: "optimizedResponse option \<Rightarrow> route list" where
  "aiPart ai = (case ai of
      Some resp \<Rightarrow> (case optimal_route resp of Some opt \<Rightarrow> [aiRoute opt] | None \<Rightarrow> [])
    | None \<Rightarrow> [])"

definition enhancedPart :: "startEndResponse option \<Rightarrow> route list" where
  "enhancedPart se = (case se of
      Some resp \<Rightarrow> (case se_path resp of Some ps \<Rightarrow> [enhancedRoute resp ps] | None \<Rightarrow> [])
    | None \<Rightarrow> [])"

definition osrmPart :: "osrmOutcome \<Rightarrow> route list" where
  "osrmPart osrm = (case osrm of
      OsrmResponse (Some rs) \<Rightarrow>
        filter (\<lambda>route. geometry route \<noteq> []) (map (\<lambda>(r, index). osrmToRoute r index) (zip rs [0..<length rs]))
    | _ \<Rightarrow> [])"

section \<open>Traffic observation merge (TrafficMap.js)\<close>

text \<open>
  A traffic point is a JavaScript object with the keys below. Every field is optional:
  \<open>None\<close> stands for an absent key, which JavaScript reads as \<open>undefined\<close>, so that
  a partial observation (only some keys present) is a value of the same record. Coordinates
  are real numbers; the key \<open>id\<close> is named \<open>point_id\<close> here.
\<close>

record trafficPoint =
  point_id :: "string option"
  lat :: "real option"
  lng :: "real option"
  level :: "string option"
  vehicle_count :: "int option"
  ambulance_detected :: "bool option"
  location_name :: "string option"
  timestamp :: "string option"
  user_id :: "string option"

text \<open>
  The object spread \<open>{ ...point, ...update }\<close>: each key of the update overrides the
  key of the point, and keys absent from the update keep the value of the point.
\<close>

definition override :: "'a option \<Rightarrow> 'a option \<Rightarrow> 'a option" where
  "override old new = (case new of Some v \<Rightarrow> Some v | None \<Rightarrow> old)"

definition spread :: "trafficPoint \<Rightarrow> trafficPoint \<Rightarrow> trafficPoint" where
  "spread point update =
     \<lparr> point_id = override (point_id point) (point_id update),
       lat = override (lat point) (lat update),
       lng = override (lng point) (lng update),
       level = override (level point) (level update),
       vehicle_count = override (vehicle_count point) (vehicle_count update),
       ambulance_detected = override (ambulance_detected point) (ambulance_detected update),
       location_name = override (location_name point) (location_name update),
       timestamp = override (timestamp point) (timestamp update),
       user_id = override (user_id point) (user_id update) \<rparr>"

text \<open>
  \<open>Math.abs(point.lat - data.lat) < 0.001\<close>: with an absent coordinate the difference
  is \<open>NaN\<close> and the comparison is false.
\<close>

definition closeTo :: "real option \<Rightarrow> real option \<Rightarrow> bool" where
  "closeTo a b = (case (a, b) of (Some x, Some y) \<Rightarrow> abs (x - y) < 0.001 | _ \<Rightarrow> False)"

text \<open>
  The predicate given to \<open>findIndex\<close> in the \<open>traffic_update\<close> handler. Strict equality
  of the ids holds also when both are \<open>undefined\<close>.
\<close>

definition samePoint :: "trafficPoint \<Rightarrow> trafficPoint \<Rightarrow> bool" where
  "samePoint data point \<longleftrightarrow>
     point_id point = point_id data \<or>
     (closeTo (lat point) (lat data) \<and> closeTo (lng point) (lng data))"

text \<open>\<open>Array.prototype.findIndex\<close>; the result \<open>-1\<close> is \<open>None\<close>.\<close>

fun findIndex :: "('a \<Rightarrow> bool) \<Rightarrow> 'a list \<Rightarrow> nat option" where
  "findIndex P [] = None"
| "findIndex P (x # xs) = (if P x then Some 0 else map_option Suc (findIndex P xs))"

text \<open>The state update of the \<open>traffic_update\<close> message in \<open>ws.onmessage\<close>.\<close>

definition mergeTrafficUpdate :: "trafficPoint list \<Rightarrow> trafficPoint \<Rightarrow> trafficPoint list" where
  "mergeTrafficUpdate prev data =
     (case findIndex (samePoint data) prev of
        Some existingIndex \<Rightarrow> prev[existingIndex := spread (prev ! existingIndex) data]
      | None \<Rightarrow> prev @ [data])"

record trafficStats =
  total_vehicles :: int
  congested_points :: nat
  avg_speed :: real
  last_updated :: "string option"
  data_points :: nat

definition vehicleCountOrZero :: "trafficPoint \<Rightarrow> int" where
  "vehicleCountOrZero point = (case vehicle_count point of Some n \<Rightarrow> n | None \<Rightarrow> 0)"

definition congested :: "trafficPoint \<Rightarrow> bool" where
  "congested point \<longleftrightarrow> level point = Some ''high'' \<or> level point = Some ''medium''"

text \<open>
  \<open>handleTrafficUpdate\<close>: the state is the pair of \<open>trafficData\<close> and \<open>trafficStats\<close>;
  \<open>now\<close> is the time string written to \<open>last_updated\<close>. The statistics are computed from
  the \<open>trafficData\<close> the callback was created with, the collection before the update.
\<close>

definition handleTrafficUpdate ::
  "trafficPoint list \<times> trafficStats \<Rightarrow> trafficPoint \<Rightarrow> string \<Rightarrow> trafficPoint list \<times> trafficStats" where
  "handleTrafficUpdate state updatedTrafficPoint now =
     (let trafficData = fst state;
          samePlace = (\<lambda>point. lat point = lat updatedTrafficPoint \<and> lng point = lng updatedTrafficPoint);
          newData = map (\<lambda>point. if samePlace point then spread point updatedTrafficPoint else point)
                      trafficData;
          totalVehicles =
            foldl (\<lambda>sum point. sum + vehicleCountOrZero point) 0 trafficData
            + vehicleCountOrZero updatedTrafficPoint
            - (case find samePlace trafficData of Some p \<Rightarrow> vehicleCountOrZero p | None \<Rightarrow> 0);
          congestedPoints = length (filter congested trafficData)
      in (newData,
          (snd state)\<lparr> total_vehicles := totalVehicles,
                       congested_points := congestedPoints,
                       last_updated := Some now \<rparr>))"

text \<open>
  The statistics as \<open>fetchBackendData\<close> computes them from the collection it stores;
  \<open>avgSpeed\<close> is \<open>collectiveTraffic?.avg_speed\<close>.
\<close>

definition recomputeStats :: "trafficPoint list \<Rightarrow> real option \<Rightarrow> string \<Rightarrow> trafficStats" where
  "recomputeStats trafficPoints avgSpeed now =
     \<lparr> total_vehicles = foldl (\<lambda>sum point. sum + vehicleCountOrZero point) 0 trafficPoints,
       congested_points = length (filter congested trafficPoints),
       avg_speed = (case avgSpeed of
                      Some v \<Rightarrow> if v \<noteq> 0 then v else (if length trafficPoints > 0 then 30 else 0)
                    | None \<Rightarrow> if length trafficPoints > 0 then 30 else 0),
       last_updated = Some now,
       data_points = length trafficPoints \<rparr>"

text \<open>Example points used to evaluate the merge on concrete inputs.\<close>

definition stationPoint :: trafficPoint where
  "stationPoint =
     \<lparr> point_id = Some ''p1'', lat = Some 12.9, lng = Some 77.5, level = Some ''low'',
       vehicle_count = Some 5, ambulance_detected = Some False, location_name = None,
       timestamp = None, user_id = None \<rparr>"

definition movedReport :: trafficPoint where
  "movedReport =
     \<lparr> point_id = Some ''p1'', lat = Some 13, lng = Some 77.6, level = None,
       vehicle_count = Some 9, ambulance_detected = None, location_name = None,
       timestamp = None, user_id = None \<rparr>"

definition nearbyReport :: trafficPoint where
  "nearbyReport =
     \<lparr> point_id = Some ''b1'', lat = Some 12.9005, lng = Some 77.5, level = Some ''high'',
       vehicle_count = Some 20, ambulance_detected = Some False, location_name = None,
       timestamp = None, user_id = None \<rparr>"

definition farReport :: trafficPoint where
  "farReport =
     \<lparr> point_id = Some ''a2'', lat = Some 13.5, lng = Some 77.9, level = Some ''medium'',
       vehicle_count = Some 12, ambulance_detected = Some False, location_name = None,
       timestamp = None, user_id = None \<rparr>"

section \<open>Route recommendations (TrafficMap.js)\<close>

text \<open>
  Route objects are compared by identity (\<open>!==\<close>), so the routes handed to
  \<open>generateRouteRecommendations\<close> are references into a heap of route objects: two
  references are the same object exactly when they are equal. A recommendation keeps the
  reference of its route. Its \<open>description\<close>, a display string formatted from the route,
  is left out, and the emoji of \<open>title\<close> and \<open>icon\<close> are written as words.
\<close>

type_synonym routeRef = nat
type_synonym routeHeap = "routeRef \<Rightarrow> route"

record recommendation =
  rec_type :: string
  rec_title :: string
  rec_icon :: string
  rec_route :: routeRef

definition generateRouteRecommendations ::
  "routeHeap \<Rightarrow> routeRef list option \<Rightarrow> recommendation list" where
  "generateRouteRecommendations heap routes =
     (case routes of
        None \<Rightarrow> []
      | Some rs \<Rightarrow>
          if length rs = 0 then []
          else
            let validRoutes = filter (\<lambda>r. distance (heap r) > 0 \<and> duration (heap r) > 0) rs
            in if length validRoutes < 1 then []
               else
                 let recommendations = [];
                     aiRoute = find (\<lambda>r. type (heap r) = ''AI_OPTIMIZED'') validRoutes;
                     recommendations =
                       (case aiRoute of
                          Some r \<Rightarrow> recommendations @
                            [\<lparr> rec_type = ''AI_OPTIMIZED'', rec_title = ''AI-Optimized Route'',
                               rec_icon = ''robot'', rec_route = r \<rparr>]
                        | None \<Rightarrow> recommendations);
                     enhancedRoute = find (\<lambda>r. type (heap r) = ''ENHANCED_ROUTE'') validRoutes;
                     recommendations =
                       (case enhancedRoute of
                          Some r \<Rightarrow> recommendations @
                            [\<lparr> rec_type = ''ENHANCED_ROUTE'', rec_title = ''Enhanced Route'',
                               rec_icon = ''sparkles'', rec_route = r \<rparr>]
                        | None \<Rightarrow> recommendations);
                     sortedByTime = sort_key (\<lambda>r. duration (heap r)) validRoutes;
                     sortedByDistance = sort_key (\<lambda>r. distance (heap r)) validRoutes;
                     recommendations =
                       (if length sortedByTime > 0 \<and>
                           (aiRoute = None \<or> Some (sortedByTime ! 0) \<noteq> aiRoute) \<and>
                           (enhancedRoute = None \<or> Some (sortedByTime ! 0) \<noteq> enhancedRoute)
                        then recommendations @
                            [\<lparr> rec_type = ''TIME_SAVER'', rec_title = ''Fastest Route'',
                               rec_icon = ''stopwatch'', rec_route = sortedByTime ! 0 \<rparr>]
                        else recommendations);
                     recommendations =
                       (if length sortedByDistance > 0 \<and>
                           (aiRoute = None \<or> Some (sortedByDistance ! 0) \<noteq> aiRoute) \<and>
                           (enhancedRoute = None \<or> Some (sortedByDistance ! 0) \<noteq> enhancedRoute)
                        then recommendations @
                            [\<lparr> rec_type = ''DISTANCE_SAVER'', rec_title = ''Shortest Route'',
                               rec_icon = ''ruler'', rec_route = sortedByDistance ! 0 \<rparr>]
                        else recommendations)
                 in recommendations)"

text \<open>A single route as the external router returns it, stored at address 0.\<close>

definition singleRouteHeap :: routeHeap where
  "singleRouteHeap =
     (\<lambda>r. \<lparr> geometry = [(12.9, 77.5), (13, 77.6)], distance = 14000, duration = 1800,
            confidence = Some 0.95, isFallback = False, type = ''OPTIMAL'',
            bounds = Some ((12.9, 77.5), (13, 77.6)) \<rparr>)"

section \<open>Fuzzy place resolver (TrafficMap.js)\<close>

text \<open>
  Strings are lists of 8-bit characters; the model covers ASCII text. A character is
  read through its code: \<open>toLowerCase\<close> maps \<open>A\<close> to \<open>Z\<close> onto \<open>a\<close> to \<open>z\<close>, the class
  \<open>\w\<close> is letters, digits and the underscore, and \<open>\s\<close> is tab, line feed, vertical tab,
  form feed, carriage return and space.
\<close>

definition toLowerCase :: "string \<Rightarrow> string" where
  "toLowerCase str =
     map (\<lambda>c. let n = (of_char c :: nat) in if 65 \<le> n \<and> n \<le> 90 then char_of (n + 32) else c) str"

definition isWordChar :: "char \<Rightarrow> bool" where
  "isWordChar c =
     (let n = (of_char c :: nat)
      in (48 \<le> n \<and> n \<le> 57) \<or> (65 \<le> n \<and> n \<le> 90) \<or> (97 \<le> n \<and> n \<le> 122) \<or> n = 95)"

definition isSpaceChar :: "char \<Rightarrow> bool" where
  "isSpaceChar c = (let n = (of_char c :: nat) in (9 \<le> n \<and> n \<le> 13) \<or> n = 32)"

definition trim :: "string \<Rightarrow> string" where
  "trim str = rev (dropWhile isSpaceChar (rev (dropWhile isSpaceChar str)))"

definition normalizeStr :: "string \<Rightarrow> string" where
  "normalizeStr str = trim (filter (\<lambda>c. isWordChar c \<or> isSpaceChar c) (toLowerCase str))"

text \<open>\<open>String.prototype.includes\<close>: the argument occurs as a contiguous substring.\<close>

fun includesStr :: "string \<Rightarrow> string \<Rightarrow> bool" where
  "includesStr [] sub = (sub = [])"
| "includesStr (c # cs) sub = (prefix sub (c # cs) \<or> includesStr cs sub)"

text \<open>
  \<open>str.split(/\s+/)\<close>: the pieces between maximal runs of whitespace; the empty string
  gives one empty piece.
\<close>

function splitWhitespace :: "string \<Rightarrow> string \<Rightarrow> string list" where
  "splitWhitespace piece [] = [piece]"
| "splitWhitespace piece (c # cs) =
     (if isSpaceChar c then piece # splitWhitespace [] (dropWhile isSpaceChar cs)
      else splitWhitespace (piece @ [c]) cs)"
  by pat_completeness auto
termination
  by (relation "measure (\<lambda>(piece, str). length str)")
     (auto simp: le_imp_less_Suc length_dropWhile_le)

text \<open>
  \<open>levenshteinDistance\<close>. The matrix is a list of rows. Row \<open>i\<close> starts as \<open>[i]\<close>, row 0
  is then filled with \<open>0 .. a.length\<close>, and the inner loop writes \<open>matrix[i][j]\<close> at the
  index just past the end of row \<open>i\<close>, which extends the row by one entry.
\<close>

definition arraySet :: "'a list \<Rightarrow> nat \<Rightarrow> 'a \<Rightarrow> 'a list" where
  "arraySet xs j v = (if j < length xs then xs[j := v] else xs @ [v])"

function levInner :: "string \<Rightarrow> string \<Rightarrow> nat \<Rightarrow> nat \<Rightarrow> nat list list \<Rightarrow> nat list list" where
  "levInner a b i j matrix =
     (if j \<le> length a then
        let cost = (if a ! (j - 1) = b ! (i - 1) then 0 else 1);
            v = min (min (matrix ! (i - 1) ! j + 1) (matrix ! i ! (j - 1) + 1))
                    (matrix ! (i - 1) ! (j - 1) + cost)
        in levInner a b i (j + 1) (matrix[i := arraySet (matrix ! i) j v])
      else matrix)"
  by pat_completeness auto
termination
  by (relation "measure (\<lambda>(a, b, i, j, matrix). Suc (length a) - j)") auto

function levOuter :: "string \<Rightarrow> string \<Rightarrow> nat \<Rightarrow> nat list list \<Rightarrow> nat list list" where
  "levOuter a b i matrix =
     (if i \<le> length b then levOuter a b (i + 1) (levInner a b i 1 matrix) else matrix)"
  by pat_completeness auto
termination
  by (relation "measure (\<lambda>(a, b, i, matrix). Suc (length b) - i)") auto

declare levInner.simps [simp del]
declare levOuter.simps [simp del]

definition levenshteinDistance :: "string \<Rightarrow> string \<Rightarrow> nat" where
  "levenshteinDistance a b =
     (if a = [] \<or> b = [] then max (length a) (length b)
      else
        let matrix = map (\<lambda>i. [i]) [0..<Suc (length b)];
            matrix = matrix[0 := [0..<Suc (length a)]];
            matrix = levOuter a b 1 matrix
        in matrix ! length b ! length a)"

record location =
  name :: string
  loc_lat :: real
  loc_lng :: real

definition candidateScore :: "string \<Rightarrow> location \<Rightarrow> real" where
  "candidateScore inputNorm candidate =
     (let candidateNorm = normalizeStr (name candidate)
      in if candidateNorm = inputNorm then 1.0
         else
           let score = (if includesStr candidateNorm inputNorm \<or> includesStr inputNorm candidateNorm
                        then 0.8 else 0);
               inputWords = splitWhitespace [] inputNorm;
               candidateWords = splitWhitespace [] candidateNorm;
               overlap = length (filter (\<lambda>word. word \<in> set candidateWords) inputWords);
               score = max score (real overlap / real (max (length inputWords) (length candidateWords)));
               maxLength = max (length inputNorm) (length candidateNorm)
           in if maxLength > 0 then
                let distance = levenshteinDistance inputNorm candidateNorm;
                    similarity = 1 - real distance / real maxLength
                in max score (similarity * 0.7)
              else score)"

text \<open>
  \<open>fuzzyMatchLocation\<close>. The empty input and a missing candidate list give \<open>null\<close>. The
  scored candidates are sorted by descending score with a stable sort, and the first is
  accepted when its score exceeds 0.3.
\<close>

definition fuzzyMatchLocation :: "string \<Rightarrow> location list option \<Rightarrow> location option" where
  "fuzzyMatchLocation input candidates =
     (case candidates of
        None \<Rightarrow> None
      | Some cs \<Rightarrow>
          if input = [] then None
          else
            let inputNorm = normalizeStr input;
                scores = map (\<lambda>candidate. (candidate, candidateScore inputNorm candidate)) cs;
                scores = sort_key (\<lambda>entry. - snd entry) scores
            in (case scores of
                  [] \<Rightarrow> None
                | best # others \<Rightarrow> if snd best > 0.3 then Some (fst best) else None))"

section \<open>Theorems: signal arbitration\<close>

lemma getTotal_sum:
  "getTotal td lane = sum_list (map snd (case td lane of None \<Rightarrow> [] | Some obj \<Rightarrow> obj))"
proof -
  have "foldl (\<lambda>a b. a + b) a xs = a + sum_list xs" for a :: int and xs
    by (induction xs arbitrary: a) simp_all
  then show ?thesis by (simp add: getTotal_def)
qed

lemma updateSignals_unfold:
  "updateSignals td =
     (let l1 = getTotal td ''lane_1''; l2 = getTotal td ''lane_2''; l3 = getTotal td ''lane_3''
      in if l2 < l1 then
           (if l3 < l2 then \<lparr> lane_1 = ''red'', lane_2 = ''red'', lane_3 = ''green'' \<rparr>
            else \<lparr> lane_1 = ''red'', lane_2 = ''green'', lane_3 = ''red'' \<rparr>)
         else
           (if l3 < l1 then \<lparr> lane_1 = ''red'', lane_2 = ''red'', lane_3 = ''green'' \<rparr>
            else \<lparr> lane_1 = ''green'', lane_2 = ''red'', lane_3 = ''red'' \<rparr>))"
  by (simp add: updateSignals_def Let_def)

lemma less_3_cases: "i < (3::nat) \<longleftrightarrow> i = 0 \<or> i = 1 \<or> i = 2"
  by auto

lemma less_2_cases: "i < (2::nat) \<longleftrightarrow> i = 0 \<or> i = 1"
  by auto

text \<open>
  Claim C1. Whatever the per-vehicle-type counts of the three lanes are, each lane
  total is the sum of that lane's counts, and \<open>updateSignals\<close> sets exactly one lane
  to green and the other two to red. The green lane has the smallest total, and its total is
  strictly smaller than that of every earlier lane, so a tie goes to the earlier lane.
  Totals 5, 3, 8 give lane 2 green and lanes 1 and 3 red; totals 4, 4, 9 give lane 1 green.
\<close>

theorem updateSignals_one_green_first_minimum:
  "(\<forall>i<3. getTotal td (laneOrder ! i) =
        sum_list (map snd (case td (laneOrder ! i) of None \<Rightarrow> [] | Some obj \<Rightarrow> obj))) \<and>
   (\<exists>g<3.
      (\<forall>i<3. getTotal td (laneOrder ! g) \<le> getTotal td (laneOrder ! i)) \<and>
      (\<forall>i<g. getTotal td (laneOrder ! g) < getTotal td (laneOrder ! i)) \<and>
      (\<forall>i<3. signalAt (updateSignals td) i = (if i = g then ''green'' else ''red''))) \<and>
   (getTotal td ''lane_1'' = 5 \<and> getTotal td ''lane_2'' = 3 \<and> getTotal td ''lane_3'' = 8 \<longrightarrow>
      updateSignals td = \<lparr> lane_1 = ''red'', lane_2 = ''green'', lane_3 = ''red'' \<rparr>) \<and>
   (getTotal td ''lane_1'' = 4 \<and> getTotal td ''lane_2'' = 4 \<and> getTotal td ''lane_3'' = 9 \<longrightarrow>
      updateSignals td = \<lparr> lane_1 = ''green'', lane_2 = ''red'', lane_3 = ''red'' \<rparr>)"
proof (intro conjI)
  show "\<forall>i<3. getTotal td (laneOrder ! i) =
        sum_list (map snd (case td (laneOrder ! i) of None \<Rightarrow> [] | Some obj \<Rightarrow> obj))"
    by (simp add: getTotal_sum)
next
  let ?l1 = "getTotal td ''lane_1''" and ?l2 = "getTotal td ''lane_2''"
    and ?l3 = "getTotal td ''lane_3''"
  consider (a) "?l1 \<le> ?l2" "?l1 \<le> ?l3" | (b) "?l2 < ?l1" "?l2 \<le> ?l3"
    | (c) "?l3 < ?l1" "?l3 < ?l2"
    by linarith
  then show "\<exists>g<3.
      (\<forall>i<3. getTotal td (laneOrder ! g) \<le> getTotal td (laneOrder ! i)) \<and>
      (\<forall>i<g. getTotal td (laneOrder ! g) < getTotal td (laneOrder ! i)) \<and>
      (\<forall>i<3. signalAt (updateSignals td) i = (if i = g then ''green'' else ''red''))"
  proof cases
    case a
    then show ?thesis
      by (intro exI[of _ 0]) (auto simp: less_3_cases less_2_cases laneOrder_def signalAt_def updateSignals_unfold Let_def)
  next
    case b
    then show ?thesis
      by (intro exI[of _ 1]) (auto simp: less_3_cases less_2_cases laneOrder_def signalAt_def updateSignals_unfold Let_def)
  next
    case c
    then show ?thesis
      by (intro exI[of _ 2]) (auto simp: less_3_cases less_2_cases laneOrder_def signalAt_def updateSignals_unfold Let_def)
  qed
next
  show "getTotal td ''lane_1'' = 5 \<and> getTotal td ''lane_2'' = 3 \<and> getTotal td ''lane_3'' = 8 \<longrightarrow>
      updateSignals td = \<lparr> lane_1 = ''red'', lane_2 = ''green'', lane_3 = ''red'' \<rparr>"
    by (simp add: updateSignals_unfold)
next
  show "getTotal td ''lane_1'' = 4 \<and> getTotal td ''lane_2'' = 4 \<and> getTotal td ''lane_3'' = 9 \<longrightarrow>
      updateSignals td = \<lparr> lane_1 = ''green'', lane_2 = ''red'', lane_3 = ''red'' \<rparr>"
    by (simp add: updateSignals_unfold)
qed

theorem updateSignals_one_green_first_minimum_witness:
  "getTotal [''lane_1'' \<mapsto> [(''car'', 3), (''bike'', 2)], ''lane_2'' \<mapsto> [(''car'', 3)],
             ''lane_3'' \<mapsto> [(''bus'', 1), (''car'', 7)]] ''lane_1'' = 5 \<and>
   getTotal [''lane_1'' \<mapsto> [(''car'', 3), (''bike'', 2)], ''lane_2'' \<mapsto> [(''car'', 3)],
             ''lane_3'' \<mapsto> [(''bus'', 1), (''car'', 7)]] ''lane_2'' = 3 \<and>
   getTotal [''lane_1'' \<mapsto> [(''car'', 3), (''bike'', 2)], ''lane_2'' \<mapsto> [(''car'', 3)],
             ''lane_3'' \<mapsto> [(''bus'', 1), (''car'', 7)]] ''lane_3'' = 8 \<and>
   updateSignals [''lane_1'' \<mapsto> [(''car'', 3), (''bike'', 2)], ''lane_2'' \<mapsto> [(''car'', 3)],
                  ''lane_3'' \<mapsto> [(''bus'', 1), (''car'', 7)]] =
     \<lparr> lane_1 = ''red'', lane_2 = ''green'', lane_3 = ''red'' \<rparr>"
proof -
  let ?td = "[''lane_1'' \<mapsto> [(''car'', 3), (''bike'', 2)], ''lane_2'' \<mapsto> [(''car'', 3)],
              ''lane_3'' \<mapsto> [(''bus'', 1), (''car'', 7::int)]]"
  have h: "getTotal ?td ''lane_1'' = 5 \<and> getTotal ?td ''lane_2'' = 3 \<and> getTotal ?td ''lane_3'' = 8"
    by (simp add: getTotal_def)
  from updateSignals_one_green_first_minimum[of ?td] h show ?thesis
    by blast
qed

section \<open>Theorems: route geometry, bounds and acquisition\<close>

lemma curveLoop_map:
  "i \<le> Suc numPoints \<Longrightarrow>
   curveLoop s e cLat cLng i pts =
     pts @ map (\<lambda>k. quadraticBezier s (cLat, cLng) e (real k / real numPoints)) [i..<Suc numPoints]"
proof (induction s e cLat cLng i pts rule: curveLoop.induct)
  case (1 s e cLat cLng i pts)
  show ?case
  proof (cases "i \<le> numPoints")
    case True
    then have "[i..<Suc numPoints] = i # [Suc i..<Suc numPoints]"
      by (simp add: upt_conv_Cons)
    with True "1.IH"[OF True refl refl refl] show ?thesis
      by (subst curveLoop.simps) (simp add: quadraticBezier_def Let_def)
  next
    case False
    with "1.prems" have "i = Suc numPoints" by simp
    then show ?thesis by (subst curveLoop.simps) simp
  qed
qed

lemma createCurvedRoute_samples:
  "createCurvedRoute (Some s) (Some e) random1 random2 =
     map (\<lambda>k. quadraticBezier s (controlPoint s e random1 random2) e (real k / 20)) [0..<21]"
  by (simp add: createCurvedRoute_def Let_def curveLoop_map controlPoint_def numPoints_def
      del: upt_rec_numeral)

lemma createCurvedRoute_length:
  "length (createCurvedRoute (Some s) (Some e) random1 random2) = 21"
  by (simp add: createCurvedRoute_samples del: upt_rec_numeral)

text \<open>
  Claim C5. For every start and end coordinate and every pair of random draws, the
  geometry of \<open>createCurvedRoute\<close> is the quadratic Bezier curve from start to end through
  the perturbed midpoint, sampled at the 21 parameters \<open>0/20, 1/20, ..., 20/20\<close>; its first
  point is the start and its last point is the end. Coordinates are real numbers here, so
  the two endpoints are met exactly.
\<close>

theorem createCurvedRoute_bezier_endpoints:
  "createCurvedRoute (Some s) (Some e) random1 random2 =
     map (\<lambda>k. quadraticBezier s (controlPoint s e random1 random2) e (real k / 20)) [0..<21] \<and>
   length (createCurvedRoute (Some s) (Some e) random1 random2) = 21 \<and>
   hd (createCurvedRoute (Some s) (Some e) random1 random2) = s \<and>
   last (createCurvedRoute (Some s) (Some e) random1 random2) = e"
proof -
  have ne: "[0..<21::nat] \<noteq> []"
    by (simp del: upt_rec_numeral)
  have "hd (map (\<lambda>k. quadraticBezier s (controlPoint s e random1 random2) e (real k / 20)) [0..<21]) = s"
    using ne by (simp add: hd_map quadraticBezier_def del: upt_rec_numeral)
  moreover have "last (map (\<lambda>k. quadraticBezier s (controlPoint s e random1 random2) e (real k / 20)) [0..<21]) = e"
    using ne by (simp add: last_map quadraticBezier_def del: upt_rec_numeral)
  ultimately show ?thesis
    by (simp add: createCurvedRoute_samples del: upt_rec_numeral)
qed

lemma Math_min_Min: "xs \<noteq> [] \<Longrightarrow> Math_min xs = Min (set xs)"
  by (cases xs) (simp, simp only: Math_min.simps Min.set_eq_fold)

lemma Math_max_Max: "xs \<noteq> [] \<Longrightarrow> Math_max xs = Max (set xs)"
  by (cases xs) (simp, simp only: Math_max.simps Max.set_eq_fold)

lemma Math_min_le: "x \<in> set xs \<Longrightarrow> Math_min xs \<le> x"
  by (cases "xs = []") (simp_all add: Math_min_Min)

lemma Math_max_ge: "x \<in> set xs \<Longrightarrow> x \<le> Math_max xs"
  by (cases "xs = []") (simp_all add: Math_max_Max)

lemma calculateRouteBounds_Some:
  "cs \<noteq> [] \<Longrightarrow>
   calculateRouteBounds (Some cs) =
     Some ((Math_min (map fst cs), Math_min (map snd cs)),
           (Math_max (map fst cs), Math_max (map snd cs)))"
  by (simp add: calculateRouteBounds_def Let_def)

lemma calculateBoundsFromPoints_unfold:
  "calculateBoundsFromPoints (Some ps) =
     (let vs = map the (filter truthyPoint ps)
      in if vs = [] then None
         else Some ((Math_min (map fst vs), Math_min (map snd vs)),
                    (Math_max (map fst vs), Math_max (map snd vs))))"
  by (cases ps) (simp_all add: calculateBoundsFromPoints_def Let_def)

lemma truthyPoint_iff:
  "truthyPoint p \<longleftrightarrow> (\<exists>c. p = Some c \<and> fst c \<noteq> 0 \<and> snd c \<noteq> 0)"
  by (cases p) (simp_all add: truthyPoint_def)

lemma survivors_set:
  "set (map the (filter truthyPoint ps)) = {c. Some c \<in> set ps \<and> fst c \<noteq> 0 \<and> snd c \<noteq> 0}"
  by (force simp: truthyPoint_iff)

lemma calculateRouteBounds_contains:
  assumes "c \<in> set cs"
  shows "\<exists>b. calculateRouteBounds (Some cs) = Some b \<and> inBox b c"
proof -
  from assms have ne: "cs \<noteq> []" by auto
  from assms have "fst c \<in> set (map fst cs)" "snd c \<in> set (map snd cs)" by auto
  then show ?thesis
    by (simp add: calculateRouteBounds_Some[OF ne] inBox_def Math_min_le Math_max_ge)
qed

lemma calculateBoundsFromPoints_contains:
  assumes "Some c \<in> set ps" "fst c \<noteq> 0" "snd c \<noteq> 0"
  shows "\<exists>b. calculateBoundsFromPoints (Some ps) = Some b \<and> inBox b c"
proof -
  let ?vs = "map the (filter truthyPoint ps)"
  from assms have mem: "c \<in> set ?vs" unfolding survivors_set by simp
  then have ne: "?vs \<noteq> []" by (metis empty_iff list.set(1))
  from mem have "fst c \<in> set (map fst ?vs)" "snd c \<in> set (map snd ?vs)" by auto
  then have "Math_min (map fst ?vs) \<le> fst c" "fst c \<le> Math_max (map fst ?vs)"
    "Math_min (map snd ?vs) \<le> snd c" "snd c \<le> Math_max (map snd ?vs)"
    by (simp_all only: Math_min_le Math_max_ge)
  with ne show ?thesis
    by (simp add: calculateBoundsFromPoints_unfold Let_def inBox_def)
qed

text \<open>
  Claim C10. \<open>calculateBoundsFromPoints\<close> returns \<open>null\<close> exactly when every entry is
  missing or has latitude or longitude 0. An entry that is missing or has a zero
  coordinate can be removed from the list without changing the result. When some entry
  survives, the box is the minimum and maximum latitude and longitude over the surviving
  entries only. \<open>calculateRouteBounds\<close>, on a non-empty list, takes them over all
  coordinates, zero or not.
\<close>

theorem calculateBoundsFromPoints_discards_zero:
  "(calculateBoundsFromPoints (Some ps) = None \<longleftrightarrow>
      (\<forall>p \<in> set ps. p = None \<or> fst (the p) = 0 \<or> snd (the p) = 0)) \<and>
   (p = None \<or> fst (the p) = 0 \<or> snd (the p) = 0 \<longrightarrow>
      calculateBoundsFromPoints (Some (xs @ p # ys)) = calculateBoundsFromPoints (Some (xs @ ys))) \<and>
   (calculateBoundsFromPoints (Some ps) \<noteq> None \<longrightarrow>
      calculateBoundsFromPoints (Some ps) =
        Some ((Min (fst ` {c. Some c \<in> set ps \<and> fst c \<noteq> 0 \<and> snd c \<noteq> 0}),
               Min (snd ` {c. Some c \<in> set ps \<and> fst c \<noteq> 0 \<and> snd c \<noteq> 0})),
              (Max (fst ` {c. Some c \<in> set ps \<and> fst c \<noteq> 0 \<and> snd c \<noteq> 0}),
               Max (snd ` {c. Some c \<in> set ps \<and> fst c \<noteq> 0 \<and> snd c \<noteq> 0})))) \<and>
   (cs \<noteq> [] \<longrightarrow>
      calculateRouteBounds (Some cs) =
        Some ((Min (fst ` set cs), Min (snd ` set cs)), (Max (fst ` set cs), Max (snd ` set cs))))"
proof (intro conjI impI)
  have "filter truthyPoint ps = [] \<longleftrightarrow> (\<forall>p \<in> set ps. p = None \<or> fst (the p) = 0 \<or> snd (the p) = 0)"
    by (auto simp: filter_empty_conv truthyPoint_iff)
  then show "calculateBoundsFromPoints (Some ps) = None \<longleftrightarrow>
      (\<forall>p \<in> set ps. p = None \<or> fst (the p) = 0 \<or> snd (the p) = 0)"
    by (simp add: calculateBoundsFromPoints_unfold Let_def)
next
  assume "p = None \<or> fst (the p) = 0 \<or> snd (the p) = 0"
  then have "\<not> truthyPoint p" by (auto simp: truthyPoint_iff)
  then show "calculateBoundsFromPoints (Some (xs @ p # ys)) = calculateBoundsFromPoints (Some (xs @ ys))"
    by (simp add: calculateBoundsFromPoints_unfold)
next
  let ?vs = "map the (filter truthyPoint ps)"
  assume "calculateBoundsFromPoints (Some ps) \<noteq> None"
  then have ne: "?vs \<noteq> []"
    by (auto simp: calculateBoundsFromPoints_unfold Let_def split: if_splits)
  then have ne': "map fst ?vs \<noteq> []" "map snd ?vs \<noteq> []" by simp_all
  have sets: "set (map fst ?vs) = fst ` {c. Some c \<in> set ps \<and> fst c \<noteq> 0 \<and> snd c \<noteq> 0}"
    "set (map snd ?vs) = snd ` {c. Some c \<in> set ps \<and> fst c \<noteq> 0 \<and> snd c \<noteq> 0}"
    using survivors_set[of ps] by (simp_all only: set_map)
  show "calculateBoundsFromPoints (Some ps) =
        Some ((Min (fst ` {c. Some c \<in> set ps \<and> fst c \<noteq> 0 \<and> snd c \<noteq> 0}),
               Min (snd ` {c. Some c \<in> set ps \<and> fst c \<noteq> 0 \<and> snd c \<noteq> 0})),
              (Max (fst ` {c. Some c \<in> set ps \<and> fst c \<noteq> 0 \<and> snd c \<noteq> 0}),
               Max (snd ` {c. Some c \<in> set ps \<and> fst c \<noteq> 0 \<and> snd c \<noteq> 0})))"
    using ne by (simp only: calculateBoundsFromPoints_unfold Let_def if_False
        Math_min_Min[OF ne'(1)] Math_min_Min[OF ne'(2)] Math_max_Max[OF ne'(1)] Math_max_Max[OF ne'(2)] sets)
next
  assume ne: "cs \<noteq> []"
  then have ne': "map fst cs \<noteq> []" "map snd cs \<noteq> []" by simp_all
  show "calculateRouteBounds (Some cs) =
        Some ((Min (fst ` set cs), Min (snd ` set cs)), (Max (fst ` set cs), Max (snd ` set cs)))"
    by (simp add: calculateRouteBounds_Some[OF ne] Math_min_Min[OF ne'(1)] Math_min_Min[OF ne'(2)]
        Math_max_Max[OF ne'(1)] Math_max_Max[OF ne'(2)])
qed

theorem calculateBoundsFromPoints_discards_zero_witness:
  "calculateBoundsFromPoints (Some [Some (12, 77), Some (0, 99), None, Some (13, 76)]) =
     Some ((12, 76), (13, 77)) \<and>
   calculateBoundsFromPoints (Some [Some (12, 77), None, Some (13, 76)]) = Some ((12, 76), (13, 77)) \<and>
   calculateBoundsFromPoints (Some [Some (0, 99), None, Some (5, 0)]) = None \<and>
   calculateRouteBounds (Some [(12, 77), (0, 99), (13, 76)]) = Some ((0, 76), (13, 99))"
proof -
  have a: "calculateBoundsFromPoints (Some [Some (12, 77), None, Some (13, 76)]) = Some ((12, 76), (13, 77))"
    by (simp add: calculateBoundsFromPoints_def truthyPoint_def)
  have b: "calculateRouteBounds (Some [(12, 77), (0, 99), (13, 76)]) = Some ((0, 76), (13, 99))"
    by (simp add: calculateRouteBounds_def)
  have c: "\<forall>p \<in> set [Some (0, 99), None, Some (5, 0::real)]. p = None \<or> fst (the p) = (0::real) \<or> snd (the p) = 0"
    by simp
  from calculateBoundsFromPoints_discards_zero
         [of "[Some (0, 99), None, Some (5, 0)]" "Some (0, 99)" "[Some (12, 77)]" "[None, Some (13, 76)]" "[(12, 77)]"]
       a b c
  show ?thesis by simp
qed

lemma getRouteType_cases:
  "getRouteType x i \<in> {''OPTIMAL'', ''ALTERNATIVE'', ''TIME_SAVER'', ''SCENIC''}"
  by (simp add: getRouteType_def)

lemma getRouteType_not_server:
  "getRouteType x i \<noteq> ''AI_OPTIMIZED''" "getRouteType x i \<noteq> ''ENHANCED_ROUTE''"
  by (simp_all add: getRouteType_def)

lemma osrmToRoute_bounds:
  assumes "c \<in> set (geometry (osrmToRoute x i))"
  shows "\<exists>b. bounds (osrmToRoute x i) = Some b \<and> inBox b c"
proof -
  let ?g = "geometry (osrmToRoute x i)"
  from assms have "?g \<noteq> []" by auto
  then have "bounds (osrmToRoute x i) = calculateRouteBounds (Some ?g)"
    by (simp add: osrmToRoute_def Let_def)
  with calculateRouteBounds_contains[OF assms] show ?thesis by simp
qed

lemma aiRoute_bounds:
  assumes "c \<in> set (geometry (aiRoute opt))" "fst c \<noteq> 0" "snd c \<noteq> 0"
  shows "\<exists>b. bounds (aiRoute opt) = Some b \<and> inBox b c"
proof (cases "path opt")
  case None
  with assms show ?thesis by (simp add: aiRoute_def)
next
  case (Some ps)
  with assms have "Some c \<in> set (map Some ps)" "ps \<noteq> []"
    by (auto simp: aiRoute_def)
  with calculateBoundsFromPoints_contains[of c "map Some ps"] assms(2,3) Some
  show ?thesis by (simp add: aiRoute_def)
qed

lemma enhancedRoute_bounds:
  assumes "c \<in> set (geometry (enhancedRoute resp ps))" "fst c \<noteq> 0" "snd c \<noteq> 0"
  shows "\<exists>b. bounds (enhancedRoute resp ps) = Some b \<and> inBox b c"
proof -
  from assms have "Some c \<in> set (map Some ps)" "ps \<noteq> []"
    by (auto simp: enhancedRoute_def)
  with calculateBoundsFromPoints_contains[of c "map Some ps"] assms(2,3)
  show ?thesis by (simp add: enhancedRoute_def)
qed

lemma fallbackRoute_bounds:
  assumes "c \<in> set (geometry (fallbackRoute s e ra rb)) \<or> c = s \<or> c = e" "fst c \<noteq> 0" "snd c \<noteq> 0"
  shows "\<exists>b. bounds (fallbackRoute s e ra rb) = Some b \<and> inBox b c"
proof -
  let ?g = "createCurvedRoute (Some s) (Some e) ra rb"
  from assms(1) have "Some c \<in> set (Some s # Some e # map Some ?g)"
    by (auto simp: fallbackRoute_def Let_def)
  from calculateBoundsFromPoints_contains[OF this assms(2,3)]
  show ?thesis by (simp add: fallbackRoute_def Let_def)
qed

lemma fallbackRoute_fields:
  "isFallback (fallbackRoute s e ra rb)"
  "type (fallbackRoute s e ra rb) = ''DIRECT''"
  "confidence (fallbackRoute s e ra rb) = Some 0.3"
  "distance (fallbackRoute s e ra rb) = calculateDistance (fst s) (snd s) (fst e) (snd e)"
  "duration (fallbackRoute s e ra rb) = calculateDistance (fst s) (snd s) (fst e) (snd e) / 1000 * 60 * 3"
  "geometry (fallbackRoute s e ra rb) = createCurvedRoute (Some s) (Some e) ra rb"
  by (simp_all add: fallbackRoute_def Let_def)

lemma other_fields:
  "\<not> isFallback (aiRoute opt)" "type (aiRoute opt) = ''AI_OPTIMIZED''"
  "\<not> isFallback (enhancedRoute resp ps)" "type (enhancedRoute resp ps) = ''ENHANCED_ROUTE''"
  "\<not> isFallback (osrmToRoute x i)" "type (osrmToRoute x i) = getRouteType x i"
  by (simp_all add: aiRoute_def enhancedRoute_def osrmToRoute_def Let_def)

lemma autoCalculateRoute_result:
  assumes "fst s \<noteq> 0" "snd s \<noteq> 0" "fst e \<noteq> 0" "snd e \<noteq> 0"
  shows "autoCalculateRoute routes0 (Some s) (Some e) ai se osrm r1 r2 r3 r4 =
     (if osrm = OsrmFailure then aiPart ai @ enhancedPart se @ [fallbackRoute s e r1 r2]
      else if osrmPart osrm \<noteq> [] then aiPart ai @ enhancedPart se @ osrmPart osrm
      else [fallbackRoute s e r3 r4])"
proof -
  have v: "truthyPoint (Some s)" "truthyPoint (Some e)"
    using assms by (simp_all add: truthyPoint_def)
  have pre: "(case se of
                None \<Rightarrow> fetchAiOptimizedRoute (Some s) (Some e) ai []
              | Some resp \<Rightarrow>
                  (case se_path resp of
                     None \<Rightarrow> fetchAiOptimizedRoute (Some s) (Some e) ai []
                   | Some ps \<Rightarrow> fetchAiOptimizedRoute (Some s) (Some e) ai [] @ [enhancedRoute resp ps]))
             = aiPart ai @ enhancedPart se"
    by (simp add: fetchAiOptimizedRoute_def aiPart_def enhancedPart_def split: option.splits)
  show ?thesis
  proof (cases osrm)
    case OsrmFailure
    have "geometry (fallbackRoute s e r1 r2) \<noteq> []"
      using createCurvedRoute_length[of s e r1 r2]
      by (auto simp: fallbackRoute_fields)
    with OsrmFailure v pre show ?thesis
      by (simp add: autoCalculateRoute_def getRoute_def Let_def)
  next
    case (OsrmResponse x)
    with v pre show ?thesis
      by (cases x) (auto simp: autoCalculateRoute_def getRoute_def Let_def osrmPart_def
          filter_empty_conv)
  qed
qed


lemma aiPart_members: "r \<in> set (aiPart ai) \<Longrightarrow> \<exists>opt. r = aiRoute opt"
  by (auto simp: aiPart_def split: option.splits)

lemma enhancedPart_members: "r \<in> set (enhancedPart se) \<Longrightarrow> \<exists>resp ps. r = enhancedRoute resp ps"
  by (auto simp: enhancedPart_def split: option.splits)

lemma osrmPart_members: "r \<in> set (osrmPart osrm) \<Longrightarrow> \<exists>x i. r = osrmToRoute x i"
  by (auto simp: osrmPart_def split: osrmOutcome.splits option.splits)

lemma part_types:
  "r \<in> set (aiPart ai) \<Longrightarrow> type r = ''AI_OPTIMIZED''"
  "r \<in> set (enhancedPart se) \<Longrightarrow> type r = ''ENHANCED_ROUTE''"
  "r \<in> set (osrmPart osrm) \<Longrightarrow> type r \<noteq> ''AI_OPTIMIZED'' \<and> type r \<noteq> ''ENHANCED_ROUTE''"
  by (auto simp: other_fields getRouteType_not_server
      dest!: aiPart_members enhancedPart_members osrmPart_members)

lemma autoCalculateRoute_members:
  assumes "fst s \<noteq> 0" "snd s \<noteq> 0" "fst e \<noteq> 0" "snd e \<noteq> 0"
    and "r \<in> set (autoCalculateRoute routes0 (Some s) (Some e) ai se osrm r1 r2 r3 r4)"
  shows "(\<exists>opt. r = aiRoute opt) \<or> (\<exists>resp ps. r = enhancedRoute resp ps) \<or>
         (\<exists>x i. r = osrmToRoute x i) \<or> (\<exists>ra rb. r = fallbackRoute s e ra rb)"
  using assms(5) aiPart_members[of r ai] enhancedPart_members[of r se] osrmPart_members[of r osrm]
  unfolding autoCalculateRoute_result[OF assms(1-4)]
  by (auto split: if_splits)

text \<open>
  Claim C6, as amended. For valid start and end coordinates, every route that route
  acquisition leaves in the route list has bounds that contain every coordinate of its
  geometry whose latitude and longitude are both non-zero. A route converted from the
  external router's response (types OPTIMAL, ALTERNATIVE, TIME_SAVER, SCENIC), whose bounds
  come from \<open>calculateRouteBounds\<close>, has bounds that contain every coordinate of its
  geometry. The bounds of a fallback route also contain the start and the end coordinate.
\<close>

theorem route_bounds_cover_nonzero_geometry:
  assumes "fst s \<noteq> 0" "snd s \<noteq> 0" "fst e \<noteq> 0" "snd e \<noteq> 0"
    and "r \<in> set (autoCalculateRoute routes0 (Some s) (Some e) ai se osrm r1 r2 r3 r4)"
  shows "(\<forall>c \<in> set (geometry r). fst c \<noteq> 0 \<and> snd c \<noteq> 0 \<longrightarrow> (\<exists>b. bounds r = Some b \<and> inBox b c)) \<and>
         (type r \<in> {''OPTIMAL'', ''ALTERNATIVE'', ''TIME_SAVER'', ''SCENIC''} \<longrightarrow>
            (\<forall>c \<in> set (geometry r). \<exists>b. bounds r = Some b \<and> inBox b c)) \<and>
         (isFallback r \<longrightarrow> (\<exists>b. bounds r = Some b \<and> inBox b s \<and> inBox b e))"
proof -
  from autoCalculateRoute_members[OF assms]
  consider (ai) opt where "r = aiRoute opt"
    | (enh) resp ps where "r = enhancedRoute resp ps"
    | (osrm) x i where "r = osrmToRoute x i"
    | (fb) ra rb where "r = fallbackRoute s e ra rb"
    by blast
  then show ?thesis
  proof cases
    case ai
    then show ?thesis
      using aiRoute_bounds[of _ opt] by (simp add: other_fields)
  next
    case enh
    then show ?thesis
      using enhancedRoute_bounds[of _ resp ps] by (simp add: other_fields)
  next
    case osrm
    then show ?thesis
      using osrmToRoute_bounds[of _ x i] by (simp add: other_fields)
  next
    case fb
    have "\<exists>b. bounds r = Some b \<and> inBox b s" "\<exists>b. bounds r = Some b \<and> inBox b e"
      using fallbackRoute_bounds[of s s e ra rb] fallbackRoute_bounds[of e s e ra rb] assms(1-4) fb
      by simp_all
    then have "\<exists>b. bounds r = Some b \<and> inBox b s \<and> inBox b e" by auto
    then show ?thesis
      using fb fallbackRoute_bounds[of _ s e ra rb] by (simp add: fallbackRoute_fields(2))
  qed
qed

theorem route_bounds_cover_nonzero_geometry_witness:
  "inBox (the (bounds (hd (autoCalculateRoute [] (Some (12, 77)) (Some (13, 78)) None None
      (OsrmResponse (Some [\<lparr> osrm_coordinates = Some [(77, 12), (0, 12.5), (78, 13)],
                              osrm_distance = Some 150000, osrm_duration = Some 7200 \<rparr>]))
      (1/2) (1/2) (1/2) (1/2))))) (12.5, 0)"
proof -
  let ?osrm = "OsrmResponse (Some [\<lparr> osrm_coordinates = Some [(77, 12), (0, 12.5), (78, 13)],
                              osrm_distance = Some 150000, osrm_duration = Some 7200 \<rparr>])"
  let ?rs = "autoCalculateRoute [] (Some (12, 77)) (Some (13, 78)) None None ?osrm (1/2) (1/2) (1/2) (1/2)"
  have rs: "map geometry ?rs = [[(12, 77), (12.5, 0), (13, 78)]]" "map type ?rs = [''OPTIMAL'']"
    by (simp_all add: autoCalculateRoute_def getRoute_def truthyPoint_def fetchAiOptimizedRoute_def
        osrmToRoute_def getRouteType_def Let_def)
  then have ne: "?rs \<noteq> []" by auto
  then have mem: "hd ?rs \<in> set ?rs" by simp
  from rs ne have g: "geometry (hd ?rs) = [(12, 77), (12.5, 0), (13, 78)]" "type (hd ?rs) = ''OPTIMAL''"
    by (simp_all add: hd_map[symmetric])
  from route_bounds_cover_nonzero_geometry[OF _ _ _ _ mem] g
  show ?thesis by auto
qed

text \<open>
  Claim C6 as stated fails. The bounds of the AI-optimized route are computed by
  \<open>calculateBoundsFromPoints\<close>, which drops coordinates with a zero latitude or longitude:
  a server path through a point on the equator gives a geometry with the point
  \<open>(0, 77.5)\<close> and bounds that do not contain it.
\<close>

theorem route_bounds_counterexample:
  "map geometry (autoCalculateRoute [] (Some (12, 77)) (Some (13, 78))
      (Some \<lparr> optimal_route = Some \<lparr> path = Some [(12, 77), (0, 77.5), (13, 78)],
                distance_km = Some 150, estimated_time_min = Some 120, optimal_confidence = Some 0.9 \<rparr> \<rparr>)
      None
      (OsrmResponse (Some [\<lparr> osrm_coordinates = Some [(77, 12), (78, 13)],
                              osrm_distance = Some 150000, osrm_duration = Some 7200 \<rparr>]))
      (1/2) (1/2) (1/2) (1/2))
     = [[(12, 77), (0, 77.5), (13, 78)], [(12, 77), (13, 78)]] \<and>
   map bounds (autoCalculateRoute [] (Some (12, 77)) (Some (13, 78))
      (Some \<lparr> optimal_route = Some \<lparr> path = Some [(12, 77), (0, 77.5), (13, 78)],
                distance_km = Some 150, estimated_time_min = Some 120, optimal_confidence = Some 0.9 \<rparr> \<rparr>)
      None
      (OsrmResponse (Some [\<lparr> osrm_coordinates = Some [(77, 12), (78, 13)],
                              osrm_distance = Some 150000, osrm_duration = Some 7200 \<rparr>]))
      (1/2) (1/2) (1/2) (1/2))
     = [Some ((12, 77), (13, 78)), Some ((12, 77), (13, 78))] \<and>
   \<not> inBox ((12, 77), (13, 78)) (0, 77.5)"
  by (simp add: autoCalculateRoute_def getRoute_def truthyPoint_def fetchAiOptimizedRoute_def
      aiRoute_def osrmToRoute_def getRouteType_def calculateBoundsFromPoints_def
      calculateRouteBounds_def inBox_def Let_def)

text \<open>
  Claim C9, as amended. For valid start and end coordinates route acquisition always
  leaves at least one route and raises no error. A server source that fails contributes no
  route: without an optimized response there is no AI_OPTIMIZED route, without an enhanced
  response no ENHANCED_ROUTE. When the external router yields a route with non-empty
  geometry the list is the AI route, the enhanced route and the router's routes, and none
  is a fallback. When the request to the external router fails the list is the AI route,
  the enhanced route and one fallback route, whether or not the server sources succeeded.
  Whenever the external router yields no usable route the list holds exactly one fallback
  route, of type DIRECT, confidence 0.3, distance the great-circle distance between start
  and end, duration that distance / 1000 * 60 * 3, and a geometry of 21 points.
\<close>

theorem autoCalculateRoute_never_empty:
  assumes "fst s \<noteq> 0" "snd s \<noteq> 0" "fst e \<noteq> 0" "snd e \<noteq> 0"
  shows "autoCalculateRoute routes0 (Some s) (Some e) ai se osrm r1 r2 r3 r4 \<noteq> [] \<and>
    (ai = None \<or> optimal_route (the ai) = None \<longrightarrow>
       ''AI_OPTIMIZED'' \<notin> type ` set (autoCalculateRoute routes0 (Some s) (Some e) ai se osrm r1 r2 r3 r4)) \<and>
    (se = None \<or> se_path (the se) = None \<longrightarrow>
       ''ENHANCED_ROUTE'' \<notin> type ` set (autoCalculateRoute routes0 (Some s) (Some e) ai se osrm r1 r2 r3 r4)) \<and>
    (osrmPart osrm \<noteq> [] \<longrightarrow>
       autoCalculateRoute routes0 (Some s) (Some e) ai se osrm r1 r2 r3 r4 =
         aiPart ai @ enhancedPart se @ osrmPart osrm \<and>
       filter isFallback (autoCalculateRoute routes0 (Some s) (Some e) ai se osrm r1 r2 r3 r4) = []) \<and>
    (osrm = OsrmFailure \<longrightarrow>
       autoCalculateRoute routes0 (Some s) (Some e) ai se osrm r1 r2 r3 r4 =
         aiPart ai @ enhancedPart se @ [fallbackRoute s e r1 r2]) \<and>
    (osrmPart osrm = [] \<longrightarrow>
       (\<exists>fb. filter isFallback (autoCalculateRoute routes0 (Some s) (Some e) ai se osrm r1 r2 r3 r4) = [fb] \<and>
             type fb = ''DIRECT'' \<and> confidence fb = Some 0.3 \<and>
             distance fb = calculateDistance (fst s) (snd s) (fst e) (snd e) \<and>
             duration fb = calculateDistance (fst s) (snd s) (fst e) (snd e) / 1000 * 60 * 3 \<and>
             length (geometry fb) = 21))"
proof -
  let ?rs = "autoCalculateRoute routes0 (Some s) (Some e) ai se osrm r1 r2 r3 r4"
  note res = autoCalculateRoute_result[OF assms, of routes0 ai se osrm r1 r2 r3 r4]
  have nofb: "filter isFallback (aiPart ai) = []" "filter isFallback (enhancedPart se) = []"
    "filter isFallback (osrmPart osrm) = []"
    by (auto simp: filter_empty_conv other_fields
        dest!: aiPart_members enhancedPart_members osrmPart_members)
  have len: "length (geometry (fallbackRoute s e ra rb)) = 21" for ra rb
    by (simp add: fallbackRoute_fields createCurvedRoute_length)
  have mem: "r \<in> set (aiPart ai) \<or> r \<in> set (enhancedPart se) \<or> r \<in> set (osrmPart osrm) \<or>
      type r = ''DIRECT''" if "r \<in> set ?rs" for r
    using that unfolding res by (auto simp: fallbackRoute_fields split: if_splits)
  have ne: "?rs \<noteq> []" unfolding res by simp
  have ai_none: "ai = None \<or> optimal_route (the ai) = None \<longrightarrow> ''AI_OPTIMIZED'' \<notin> type ` set ?rs"
  proof
    assume "ai = None \<or> optimal_route (the ai) = None"
    then have e: "aiPart ai = []" by (auto simp: aiPart_def split: option.splits)
    show "''AI_OPTIMIZED'' \<notin> type ` set ?rs"
    proof
      assume "''AI_OPTIMIZED'' \<in> type ` set ?rs"
      then obtain r where r: "r \<in> set ?rs" "type r = ''AI_OPTIMIZED''" by auto
      from mem[OF r(1)] e r(2) part_types(2)[of r se] part_types(3)[of r osrm]
      show False by auto
    qed
  qed
  have se_none: "se = None \<or> se_path (the se) = None \<longrightarrow> ''ENHANCED_ROUTE'' \<notin> type ` set ?rs"
  proof
    assume "se = None \<or> se_path (the se) = None"
    then have e: "enhancedPart se = []" by (auto simp: enhancedPart_def split: option.splits)
    show "''ENHANCED_ROUTE'' \<notin> type ` set ?rs"
    proof
      assume "''ENHANCED_ROUTE'' \<in> type ` set ?rs"
      then obtain r where r: "r \<in> set ?rs" "type r = ''ENHANCED_ROUTE''" by auto
      from mem[OF r(1)] e r(2) part_types(1)[of r ai] part_types(3)[of r osrm]
      show False by auto
    qed
  qed
  have usable: "osrmPart osrm \<noteq> [] \<longrightarrow> ?rs = aiPart ai @ enhancedPart se @ osrmPart osrm \<and>
       filter isFallback ?rs = []"
  proof
    assume u: "osrmPart osrm \<noteq> []"
    then have "osrm \<noteq> OsrmFailure" by (auto simp: osrmPart_def)
    with u show "?rs = aiPart ai @ enhancedPart se @ osrmPart osrm \<and> filter isFallback ?rs = []"
      unfolding res by (simp add: nofb)
  qed
  have failure: "osrm = OsrmFailure \<longrightarrow> ?rs = aiPart ai @ enhancedPart se @ [fallbackRoute s e r1 r2]"
    unfolding res by simp
  have unusable: "osrmPart osrm = [] \<longrightarrow>
       (\<exists>fb. filter isFallback ?rs = [fb] \<and>
             type fb = ''DIRECT'' \<and> confidence fb = Some 0.3 \<and>
             distance fb = calculateDistance (fst s) (snd s) (fst e) (snd e) \<and>
             duration fb = calculateDistance (fst s) (snd s) (fst e) (snd e) / 1000 * 60 * 3 \<and>
             length (geometry fb) = 21)"
  proof
    assume u: "osrmPart osrm = []"
    have "filter isFallback ?rs = [fallbackRoute s e r1 r2] \<or> filter isFallback ?rs = [fallbackRoute s e r3 r4]"
      unfolding res using u by (simp add: nofb fallbackRoute_fields(1))
    then show "\<exists>fb. filter isFallback ?rs = [fb] \<and>
             type fb = ''DIRECT'' \<and> confidence fb = Some 0.3 \<and>
             distance fb = calculateDistance (fst s) (snd s) (fst e) (snd e) \<and>
             duration fb = calculateDistance (fst s) (snd s) (fst e) (snd e) / 1000 * 60 * 3 \<and>
             length (geometry fb) = 21"
      using len by (auto simp: fallbackRoute_fields)
  qed
  from ne ai_none se_none usable failure unusable show ?thesis by blast
qed

theorem autoCalculateRoute_never_empty_witness:
  "map type (autoCalculateRoute [] (Some (12.9, 77.5)) (Some (13, 77.6)) None None OsrmFailure
      (1/2) (1/2) (1/2) (1/2)) = [''DIRECT'']"
proof -
  have v: "fst (12.9::real, 77.5::real) \<noteq> 0" "snd (12.9::real, 77.5::real) \<noteq> 0"
    "fst (13::real, 77.6::real) \<noteq> 0" "snd (13::real, 77.6::real) \<noteq> 0"
    by simp_all
  from autoCalculateRoute_never_empty[OF v, of "[]" None None OsrmFailure "1/2" "1/2" "1/2" "1/2"]
  have "autoCalculateRoute [] (Some (12.9, 77.5)) (Some (13, 77.6)) None None OsrmFailure
      (1/2) (1/2) (1/2) (1/2) = aiPart None @ enhancedPart None @ [fallbackRoute (12.9, 77.5) (13, 77.6) (1/2) (1/2)]"
    by blast
  then show ?thesis
    by (simp add: aiPart_def enhancedPart_def fallbackRoute_fields)
qed

text \<open>
  Claim C9 as stated fails. The optimized source succeeds and only the request to the
  external router fails: the route list holds the AI-optimized route and a fallback route,
  so a fallback is returned although not every source failed.
\<close>

theorem autoCalculateRoute_fallback_counterexample:
  "map type (autoCalculateRoute [] (Some (12.9, 77.5)) (Some (13, 77.6))
      (Some \<lparr> optimal_route = Some \<lparr> path = Some [(12.9, 77.5), (13, 77.6)],
                distance_km = Some 14, estimated_time_min = Some 30, optimal_confidence = Some 0.9 \<rparr> \<rparr>)
      None OsrmFailure (1/2) (1/2) (1/2) (1/2)) = [''AI_OPTIMIZED'', ''DIRECT''] \<and>
   map isFallback (autoCalculateRoute [] (Some (12.9, 77.5)) (Some (13, 77.6))
      (Some \<lparr> optimal_route = Some \<lparr> path = Some [(12.9, 77.5), (13, 77.6)],
                distance_km = Some 14, estimated_time_min = Some 30, optimal_confidence = Some 0.9 \<rparr> \<rparr>)
      None OsrmFailure (1/2) (1/2) (1/2) (1/2)) = [False, True]"
proof -
  have v: "fst (12.9::real, 77.5::real) \<noteq> 0" "snd (12.9::real, 77.5::real) \<noteq> 0"
    "fst (13::real, 77.6::real) \<noteq> 0" "snd (13::real, 77.6::real) \<noteq> 0"
    by simp_all
  show ?thesis
    unfolding autoCalculateRoute_result[OF v]
    by (simp add: aiPart_def enhancedPart_def other_fields fallbackRoute_fields)
qed

section \<open>Theorems: traffic observation merge\<close>

lemma findIndex_None: "findIndex P xs = None \<longleftrightarrow> (\<forall>x \<in> set xs. \<not> P x)"
  by (induction xs) auto

lemma findIndex_Some:
  "findIndex P xs = Some i \<longleftrightarrow> i < length xs \<and> P (xs ! i) \<and> (\<forall>j<i. \<not> P (xs ! j))"
proof (induction xs arbitrary: i)
  case Nil
  then show ?case by simp
next
  case (Cons x xs)
  show ?case
  proof (cases "P x")
    case True
    then show ?thesis by (cases i) auto
  next
    case False
    show ?thesis
    proof (cases i)
      case 0
      with False show ?thesis by auto
    next
      case (Suc k)
      have "(\<forall>j<Suc k. \<not> P ((x # xs) ! j)) \<longleftrightarrow> (\<forall>j<k. \<not> P (xs ! j))"
        using False by (auto simp: less_Suc_eq_0_disj)
      with False Suc Cons.IH[of k] show ?thesis by auto
    qed
  qed
qed

lemma override_idem: "override (override a b) b = override a b"
  by (cases b) (simp_all add: override_def)

lemma override_self: "override a a = a"
  by (cases a) (simp_all add: override_def)

lemma spread_idem: "spread (spread p d) d = spread p d"
  by (simp add: spread_def override_idem)

lemma spread_self: "spread d d = d"
  by (simp add: spread_def override_self)

lemma samePoint_self: "samePoint d d"
  by (simp add: samePoint_def)

lemma closeTo_self: "closeTo a b \<Longrightarrow> closeTo b b"
  by (auto simp: closeTo_def split: option.splits)

lemma samePoint_spread: "samePoint d p \<Longrightarrow> samePoint d (spread p d)"
proof (cases "point_id d")
  case None
  assume "samePoint d p"
  with None show ?thesis
    by (auto simp: samePoint_def spread_def override_def closeTo_def split: option.splits)
next
  case (Some v)
  then show ?thesis by (simp add: samePoint_def spread_def override_def)
qed

text \<open>
  Claim C3. Merging the same observation twice gives the same collection as merging it once,
  for every collection and every observation, whichever of its keys are present.
\<close>

theorem mergeTrafficUpdate_idempotent:
  "mergeTrafficUpdate (mergeTrafficUpdate prev data) data = mergeTrafficUpdate prev data"
proof (cases "findIndex (samePoint data) prev")
  case None
  then have no: "\<forall>x \<in> set prev. \<not> samePoint data x" by (simp add: findIndex_None)
  have "findIndex (samePoint data) (prev @ [data]) = Some (length prev)"
    unfolding findIndex_Some using no by (auto simp: nth_append samePoint_self)
  with None show ?thesis
    by (simp add: mergeTrafficUpdate_def spread_self)
next
  case (Some i)
  then have i: "i < length prev" "samePoint data (prev ! i)" "\<forall>j<i. \<not> samePoint data (prev ! j)"
    by (simp_all add: findIndex_Some)
  let ?m = "spread (prev ! i) data"
  have "findIndex (samePoint data) (prev[i := ?m]) = Some i"
    unfolding findIndex_Some using i by (auto simp: samePoint_spread)
  with Some i(1) show ?thesis
    by (simp add: mergeTrafficUpdate_def spread_idem)
qed

lemma samePoint_sym: "samePoint a b \<longleftrightarrow> samePoint b a"
  by (auto simp: samePoint_def closeTo_def abs_minus_commute split: option.splits)

lemma samePoint_spread_other:
  assumes "lat a \<noteq> None" "lng a \<noteq> None"
    and "point_id a \<noteq> point_id b"
    and "\<not> (closeTo (lat a) (lat b) \<and> closeTo (lng a) (lng b))"
    and "samePoint a p" "\<not> samePoint b p"
  shows "\<not> samePoint b (spread p a)"
proof (cases "point_id a")
  case None
  with assms show ?thesis
    by (auto simp: samePoint_def spread_def override_def split: option.splits)
next
  case (Some v)
  with assms show ?thesis
    by (auto simp: samePoint_def spread_def override_def split: option.splits)
qed

lemma not_samePoint_obs:
  assumes "point_id a \<noteq> point_id b"
    and "\<not> (closeTo (lat a) (lat b) \<and> closeTo (lng a) (lng b))"
  shows "\<not> samePoint b a"
  using assms by (auto simp: samePoint_def)

lemma findIndex_update_other:
  assumes "\<not> P (xs ! i)" "\<not> P y"
  shows "findIndex P (xs[i := y]) = findIndex P xs"
proof (cases "i < length xs")
  case False
  then have "length xs \<le> i" by simp
  then show ?thesis by (simp only: list_update_beyond)
next
  case True
  have eq: "P ((xs[i := y]) ! j) \<longleftrightarrow> P (xs ! j)" if "j < length xs" for j
    using assms that True by (cases "j = i") simp_all
  show ?thesis
  proof (cases "findIndex P xs")
    case None
    then have "\<forall>x \<in> set xs. \<not> P x" by (simp add: findIndex_None)
    then have "\<forall>x \<in> set (xs[i := y]). \<not> P x"
      using assms(2) by (metis in_set_conv_nth eq length_list_update nth_mem)
    then have "findIndex P (xs[i := y]) = None" by (simp add: findIndex_None)
    with None show ?thesis by simp
  next
    case (Some k)
    then have k: "k < length xs" "P (xs ! k)" "\<forall>j<k. \<not> P (xs ! j)"
      by (simp_all add: findIndex_Some)
    have "findIndex P (xs[i := y]) = Some k"
      unfolding findIndex_Some using k eq by (metis length_list_update less_trans)
    with Some show ?thesis by simp
  qed
qed

lemma findIndex_append_other:
  assumes "\<not> P y"
  shows "findIndex P (xs @ [y]) = findIndex P xs"
  using assms by (induction xs) simp_all


lemma closeTo_sym: "closeTo x y \<longleftrightarrow> closeTo y x"
  by (auto simp: closeTo_def abs_minus_commute split: option.splits)

lemma merge_then_merge:
  assumes coords: "lat a \<noteq> None" "lng a \<noteq> None"
    and ids: "point_id a \<noteq> point_id b"
    and far: "\<not> (closeTo (lat a) (lat b) \<and> closeTo (lng a) (lng b))"
    and nocommon: "\<forall>p \<in> set prev. \<not> (samePoint a p \<and> samePoint b p)"
  shows "mergeTrafficUpdate (mergeTrafficUpdate prev a) b =
     (case (findIndex (samePoint a) prev, findIndex (samePoint b) prev) of
        (Some i, Some j) \<Rightarrow> prev[i := spread (prev ! i) a, j := spread (prev ! j) b]
      | (Some i, None) \<Rightarrow> prev[i := spread (prev ! i) a] @ [b]
      | (None, Some j) \<Rightarrow> prev[j := spread (prev ! j) b] @ [a]
      | (None, None) \<Rightarrow> prev @ [a, b])"
proof -
  have nba: "\<not> samePoint b a"
    using ids far by (rule not_samePoint_obs)
  show ?thesis
  proof (cases "findIndex (samePoint a) prev")
    case None
    then have first: "mergeTrafficUpdate prev a = prev @ [a]"
      by (simp add: mergeTrafficUpdate_def)
    have fb: "findIndex (samePoint b) (prev @ [a]) = findIndex (samePoint b) prev"
      using nba by (rule findIndex_append_other)
    show ?thesis
    proof (cases "findIndex (samePoint b) prev")
      case None
      with \<open>findIndex (samePoint a) prev = None\<close> first fb show ?thesis
        by (simp add: mergeTrafficUpdate_def)
    next
      case (Some j)
      then have "j < length prev" by (simp add: findIndex_Some)
      with Some \<open>findIndex (samePoint a) prev = None\<close> first fb show ?thesis
        by (simp add: mergeTrafficUpdate_def list_update_append1 nth_append)
    qed
  next
    case (Some i)
    then have i: "i < length prev" "samePoint a (prev ! i)" by (simp_all add: findIndex_Some)
    then have nb: "\<not> samePoint b (prev ! i)" using nocommon by auto
    have first: "mergeTrafficUpdate prev a = prev[i := spread (prev ! i) a]"
      using Some by (simp add: mergeTrafficUpdate_def)
    have "\<not> samePoint b (spread (prev ! i) a)"
      using coords ids far i(2) nb by (rule samePoint_spread_other)
    with nb have fb: "findIndex (samePoint b) (prev[i := spread (prev ! i) a]) = findIndex (samePoint b) prev"
      by (rule findIndex_update_other)
    show ?thesis
    proof (cases "findIndex (samePoint b) prev")
      case None
      with Some first fb show ?thesis
        by (simp add: mergeTrafficUpdate_def)
    next
      case (Some j)
      then have "samePoint b (prev ! j)" by (simp add: findIndex_Some)
      with nb have "i \<noteq> j" by auto
      with Some \<open>findIndex (samePoint a) prev = Some i\<close> first fb show ?thesis
        by (simp add: mergeTrafficUpdate_def)
    qed
  qed
qed

text \<open>
  Claim C4, as amended. Take two observations that both carry a latitude and a longitude,
  have different ids and are not within the proximity threshold of each other, and a
  collection in which no point is matched by both of them, by id or by proximity. Then the
  two merge orders give the same points (equal as multisets). When at least one of the
  observations matches an existing point the two resulting lists are identical; when
  neither does, both are appended, in arrival order.
\<close>

theorem mergeTrafficUpdate_commutes_up_to_order:
  assumes "lat a \<noteq> None" "lng a \<noteq> None" "lat b \<noteq> None" "lng b \<noteq> None"
    and "point_id a \<noteq> point_id b"
    and "\<not> (closeTo (lat a) (lat b) \<and> closeTo (lng a) (lng b))"
    and "\<forall>p \<in> set prev. \<not> (samePoint a p \<and> samePoint b p)"
  shows "mset (mergeTrafficUpdate (mergeTrafficUpdate prev a) b) =
           mset (mergeTrafficUpdate (mergeTrafficUpdate prev b) a) \<and>
         ((\<exists>p \<in> set prev. samePoint a p \<or> samePoint b p) \<longrightarrow>
            mergeTrafficUpdate (mergeTrafficUpdate prev a) b =
              mergeTrafficUpdate (mergeTrafficUpdate prev b) a) \<and>
         ((\<forall>p \<in> set prev. \<not> samePoint a p \<and> \<not> samePoint b p) \<longrightarrow>
            mergeTrafficUpdate (mergeTrafficUpdate prev a) b = prev @ [a, b] \<and>
            mergeTrafficUpdate (mergeTrafficUpdate prev b) a = prev @ [b, a])"
proof -
  have ab: "mergeTrafficUpdate (mergeTrafficUpdate prev a) b =
     (case (findIndex (samePoint a) prev, findIndex (samePoint b) prev) of
        (Some i, Some j) \<Rightarrow> prev[i := spread (prev ! i) a, j := spread (prev ! j) b]
      | (Some i, None) \<Rightarrow> prev[i := spread (prev ! i) a] @ [b]
      | (None, Some j) \<Rightarrow> prev[j := spread (prev ! j) b] @ [a]
      | (None, None) \<Rightarrow> prev @ [a, b])"
    using assms(1,2,5,6,7) by (rule merge_then_merge)
  have far': "\<not> (closeTo (lat b) (lat a) \<and> closeTo (lng b) (lng a))"
    using assms(6) closeTo_sym by blast
  have nocommon': "\<forall>p \<in> set prev. \<not> (samePoint b p \<and> samePoint a p)"
    using assms(7) by blast
  have ba: "mergeTrafficUpdate (mergeTrafficUpdate prev b) a =
     (case (findIndex (samePoint b) prev, findIndex (samePoint a) prev) of
        (Some j, Some i) \<Rightarrow> prev[j := spread (prev ! j) b, i := spread (prev ! i) a]
      | (Some j, None) \<Rightarrow> prev[j := spread (prev ! j) b] @ [a]
      | (None, Some i) \<Rightarrow> prev[i := spread (prev ! i) a] @ [b]
      | (None, None) \<Rightarrow> prev @ [b, a])"
    using assms(3,4) assms(5)[symmetric] far' nocommon' by (rule merge_then_merge)
  show ?thesis
  proof (cases "findIndex (samePoint a) prev")
    case None
    note fa = this
    show ?thesis
    proof (cases "findIndex (samePoint b) prev")
      case None
      from fa None have no: "\<forall>p \<in> set prev. \<not> samePoint a p \<and> \<not> samePoint b p"
        unfolding findIndex_None by blast
      have eqs: "mergeTrafficUpdate (mergeTrafficUpdate prev a) b = prev @ [a, b]"
        "mergeTrafficUpdate (mergeTrafficUpdate prev b) a = prev @ [b, a]"
        unfolding ab ba using fa None by simp_all
      from no show ?thesis
        unfolding eqs by auto
    next
      case (Some j)
      then have "j < length prev" "samePoint b (prev ! j)" by (simp_all add: findIndex_Some)
      then have "\<exists>p \<in> set prev. samePoint b p" by (metis nth_mem)
      with fa Some show ?thesis
        unfolding ab ba by auto
    qed
  next
    case (Some i)
    note fa = this
    then have i: "i < length prev" "samePoint a (prev ! i)" by (simp_all add: findIndex_Some)
    then have ex: "\<exists>p \<in> set prev. samePoint a p" by (metis nth_mem)
    show ?thesis
    proof (cases "findIndex (samePoint b) prev")
      case None
      with fa ex show ?thesis
        unfolding ab ba by auto
    next
      case (Some j)
      then have "samePoint b (prev ! j)" by (simp add: findIndex_Some)
      with i assms(7) have "i \<noteq> j" by (metis nth_mem)
      with fa Some ex show ?thesis
        unfolding ab ba by (auto simp: list_update_swap)
    qed
  qed
qed

lemmas example_points = stationPoint_def movedReport_def nearbyReport_def farReport_def

theorem mergeTrafficUpdate_commutes_up_to_order_witness:
  "mergeTrafficUpdate (mergeTrafficUpdate [stationPoint] farReport) nearbyReport =
     mergeTrafficUpdate (mergeTrafficUpdate [stationPoint] nearbyReport) farReport"
proof -
  have h: "lat farReport \<noteq> None" "lng farReport \<noteq> None"
    "lat nearbyReport \<noteq> None" "lng nearbyReport \<noteq> None"
    "point_id farReport \<noteq> point_id nearbyReport"
    "\<not> (closeTo (lat farReport) (lat nearbyReport) \<and> closeTo (lng farReport) (lng nearbyReport))"
    "\<forall>p \<in> set [stationPoint]. \<not> (samePoint farReport p \<and> samePoint nearbyReport p)"
    by (simp_all add: example_points closeTo_def samePoint_def)
  have m: "\<exists>p \<in> set [stationPoint]. samePoint farReport p \<or> samePoint nearbyReport p"
    by (simp add: example_points closeTo_def samePoint_def)
  from mergeTrafficUpdate_commutes_up_to_order[OF h] m show ?thesis by blast
qed

text \<open>
  Claim C4 as stated fails. The report \<open>movedReport\<close> has the id of the existing point
  but lies far from it, and \<open>nearbyReport\<close> has a new id and lies within the threshold of
  the existing point: the ids differ, the two are not near each other, and the existing
  point is near only one of them. Merged in one order the existing point is updated by id
  and the second report appended; in the other order it is overwritten by proximity and
  the first report appended, without the level the point had. With an empty collection the
  two orders append the same two points in different order.
\<close>

theorem mergeTrafficUpdate_commutes_counterexample:
  "point_id movedReport \<noteq> point_id nearbyReport \<and>
   \<not> (closeTo (lat movedReport) (lat nearbyReport) \<and> closeTo (lng movedReport) (lng nearbyReport)) \<and>
   \<not> (closeTo (lat stationPoint) (lat movedReport) \<and> closeTo (lng stationPoint) (lng movedReport)) \<and>
   mergeTrafficUpdate (mergeTrafficUpdate [stationPoint] movedReport) nearbyReport =
     [movedReport\<lparr> level := Some ''low'', ambulance_detected := Some False \<rparr>, nearbyReport] \<and>
   mergeTrafficUpdate (mergeTrafficUpdate [stationPoint] nearbyReport) movedReport =
     [nearbyReport, movedReport] \<and>
   mergeTrafficUpdate (mergeTrafficUpdate [stationPoint] movedReport) nearbyReport \<noteq>
     mergeTrafficUpdate (mergeTrafficUpdate [stationPoint] nearbyReport) movedReport \<and>
   movedReport\<lparr> level := Some ''low'', ambulance_detected := Some False \<rparr> \<notin>
     set (mergeTrafficUpdate (mergeTrafficUpdate [stationPoint] nearbyReport) movedReport) \<and>
   mergeTrafficUpdate (mergeTrafficUpdate [] farReport) nearbyReport = [farReport, nearbyReport] \<and>
   mergeTrafficUpdate (mergeTrafficUpdate [] nearbyReport) farReport = [nearbyReport, farReport] \<and>
   [farReport, nearbyReport] \<noteq> [nearbyReport, farReport]"
  by (simp add: example_points mergeTrafficUpdate_def samePoint_def closeTo_def spread_def override_def)

text \<open>
  Claim C8 on \<open>handleTrafficUpdate\<close>. A marker of the collection is changed from low to
  high: the collection then has one congested point, but \<open>congested_points\<close> is counted
  on the collection before the update and stays 0. An update whose coordinates match no
  point leaves the collection unchanged, while \<open>total_vehicles\<close> grows by its count
  (17 instead of 5).
\<close>

theorem handleTrafficUpdate_stats_drift:
  "handleTrafficUpdate
     ([stationPoint],
      \<lparr> total_vehicles = 5, congested_points = 0, avg_speed = 30, last_updated = None, data_points = 1 \<rparr>)
     (stationPoint\<lparr> level := Some ''high'', vehicle_count := Some 25 \<rparr>) ''10:00:00''
   = ([stationPoint\<lparr> level := Some ''high'', vehicle_count := Some 25 \<rparr>],
      \<lparr> total_vehicles = 25, congested_points = 0, avg_speed = 30, last_updated = Some ''10:00:00'',
        data_points = 1 \<rparr>) \<and>
   length (filter congested [stationPoint\<lparr> level := Some ''high'', vehicle_count := Some 25 \<rparr>]) = 1 \<and>
   handleTrafficUpdate
     ([stationPoint],
      \<lparr> total_vehicles = 5, congested_points = 0, avg_speed = 30, last_updated = None, data_points = 1 \<rparr>)
     farReport ''10:00:00''
   = ([stationPoint],
      \<lparr> total_vehicles = 17, congested_points = 0, avg_speed = 30, last_updated = Some ''10:00:00'',
        data_points = 1 \<rparr>) \<and>
   sum_list (map vehicleCountOrZero [stationPoint]) = 5"
  by (simp add: example_points handleTrafficUpdate_def Let_def spread_def override_def
      vehicleCountOrZero_def congested_def)

text \<open>
  The statistics \<open>fetchBackendData\<close> stores are exact for the collection it stores.
\<close>

lemma recomputeStats_exact:
  "total_vehicles (recomputeStats pts avgSpeed now) = sum_list (map vehicleCountOrZero pts) \<and>
   congested_points (recomputeStats pts avgSpeed now) =
     card {i. i < length pts \<and> (level (pts ! i) = Some ''medium'' \<or> level (pts ! i) = Some ''high'')}"
proof -
  have "foldl (\<lambda>sum point. sum + vehicleCountOrZero point) s pts = s + sum_list (map vehicleCountOrZero pts)" for s
    by (induction pts arbitrary: s) simp_all
  moreover have "length (filter congested pts) = card {i. i < length pts \<and> congested (pts ! i)}"
    by (rule length_filter_conv_card)
  ultimately show ?thesis
    by (simp add: recomputeStats_def congested_def disj_commute)
qed

section \<open>Theorems: route recommendations\<close>

text \<open>
  Claim C2 on a single valid route that is neither AI-optimized nor enhanced: it is both
  the fastest and the shortest route, and the list holds a TIME_SAVER and a DISTANCE_SAVER
  entry that point to the same route object.
\<close>

theorem generateRouteRecommendations_duplicate_route:
  "map rec_type (generateRouteRecommendations singleRouteHeap (Some [0])) =
     [''TIME_SAVER'', ''DISTANCE_SAVER''] \<and>
   map rec_route (generateRouteRecommendations singleRouteHeap (Some [0])) = [0, 0] \<and>
   \<not> distinct (map rec_route (generateRouteRecommendations singleRouteHeap (Some [0])))"
  by (simp add: generateRouteRecommendations_def singleRouteHeap_def Let_def)

text \<open>
  What the selection does guarantee: the categories appear at most once each and in
  priority order, entries other than the TIME_SAVER and DISTANCE_SAVER pair never share
  a route object, and the list is empty when no route has positive distance and duration.
\<close>

lemma find_type_differs:
  "find (\<lambda>r. type (heap r) = s) xs = Some a \<Longrightarrow> find (\<lambda>r. type (heap r) = t) xs = Some b \<Longrightarrow>
   s \<noteq> t \<Longrightarrow> a \<noteq> b"
  by (auto simp: find_Some_iff)

lemma generateRouteRecommendations_shape:
  "subseq (map rec_type (generateRouteRecommendations heap routes))
     [''AI_OPTIMIZED'', ''ENHANCED_ROUTE'', ''TIME_SAVER'', ''DISTANCE_SAVER''] \<and>
   distinct (map rec_route
     (filter (\<lambda>rec. rec_type rec \<noteq> ''DISTANCE_SAVER'') (generateRouteRecommendations heap routes))) \<and>
   distinct (map rec_route
     (filter (\<lambda>rec. rec_type rec \<noteq> ''TIME_SAVER'') (generateRouteRecommendations heap routes)))"
proof (cases routes)
  case None
  then show ?thesis by (simp add: generateRouteRecommendations_def)
next
  case (Some rs)
  let ?v = "filter (\<lambda>r. distance (heap r) > 0 \<and> duration (heap r) > 0) rs"
  have d: "a \<noteq> b" if "find (\<lambda>r. type (heap r) = ''AI_OPTIMIZED'') ?v = Some a"
    "find (\<lambda>r. type (heap r) = ''ENHANCED_ROUTE'') ?v = Some b" for a b
    using that by (rule find_type_differs) simp
  show ?thesis
    unfolding generateRouteRecommendations_def Some
    by (cases "find (\<lambda>r. type (heap r) = ''AI_OPTIMIZED'') ?v";
        cases "find (\<lambda>r. type (heap r) = ''ENHANCED_ROUTE'') ?v")
       (auto simp: Let_def dest: d)
qed

lemma generateRouteRecommendations_empty:
  "\<forall>r \<in> set rs. \<not> (distance (heap r) > 0 \<and> duration (heap r) > 0) \<Longrightarrow>
   generateRouteRecommendations heap (Some rs) = []"
  by (auto simp: generateRouteRecommendations_def Let_def filter_empty_conv)

section \<open>Theorems: fuzzy place resolver\<close>

lemma Max_of_three: "Max {a, b, c :: real} = max (max a b) c"
  by (simp add: max.assoc)

lemma sort_key_hd_least:
  assumes "xs \<noteq> []"
  shows "hd (sort_key f xs) \<in> set xs \<and> (\<forall>y \<in> set xs. f (hd (sort_key f xs)) \<le> f y)"
proof -
  let ?s = "sort_key f xs"
  from assms have ne: "?s \<noteq> []" by (metis length_sort length_0_conv)
  then obtain z zs where s: "?s = z # zs" by (cases ?s) auto
  have "sorted (map f ?s)" by (rule sorted_sort_key)
  with s have "\<forall>y \<in> set ?s. f z \<le> f y" by auto
  moreover have "set ?s = set xs" by simp
  moreover have "z \<in> set ?s" using s by simp
  ultimately show ?thesis using s by auto
qed

lemma fuzzyMatchLocation_unfold:
  assumes "input \<noteq> []"
  shows "fuzzyMatchLocation input (Some cs) =
     (if cs = [] then None
      else
        let best = hd (sort_key (\<lambda>entry. - snd entry)
                     (map (\<lambda>candidate. (candidate, candidateScore (normalizeStr input) candidate)) cs))
        in if snd best > 0.3 then Some (fst best) else None)"
proof (cases "cs = []")
  case True
  with assms show ?thesis by (simp add: fuzzyMatchLocation_def)
next
  case False
  let ?sc = "map (\<lambda>candidate. (candidate, candidateScore (normalizeStr input) candidate)) cs"
  have "length (sort_key (\<lambda>entry. - snd entry) ?sc) = length cs" by simp
  with False have "sort_key (\<lambda>entry. - snd entry) ?sc \<noteq> []" by (metis length_0_conv)
  then obtain z zs where "sort_key (\<lambda>entry. - snd entry) ?sc = z # zs"
    by (cases "sort_key (\<lambda>entry. - snd entry) ?sc") auto
  with assms False show ?thesis
    by (simp add: fuzzyMatchLocation_def Let_def)
qed

lemma best_entry:
  fixes inputNorm :: string and cs :: "location list"
  assumes "cs \<noteq> []"
  defines "sc \<equiv> map (\<lambda>candidate. (candidate, candidateScore inputNorm candidate)) cs"
  defines "best \<equiv> hd (sort_key (\<lambda>entry. - snd entry) sc)"
  shows "fst best \<in> set cs" "snd best = candidateScore inputNorm (fst best)"
    "\<forall>c \<in> set cs. candidateScore inputNorm c \<le> snd best"
proof -
  have ne: "sc \<noteq> []" using assms(1) by (simp add: sc_def)
  from sort_key_hd_least[OF ne, of "\<lambda>entry. - snd entry"]
  have mem: "best \<in> set sc" and le: "\<forall>y \<in> set sc. snd y \<le> snd best"
    by (auto simp: best_def)
  from mem show "fst best \<in> set cs" "snd best = candidateScore inputNorm (fst best)"
    by (auto simp: sc_def)
  show "\<forall>c \<in> set cs. candidateScore inputNorm c \<le> snd best"
  proof
    fix c assume "c \<in> set cs"
    then have "(c, candidateScore inputNorm c) \<in> set sc" by (auto simp: sc_def)
    with le show "candidateScore inputNorm c \<le> snd best" by fastforce
  qed
qed

text \<open>
  Claim C7. For a non-empty input, \<open>fuzzyMatchLocation\<close> returns \<open>null\<close> when every
  candidate scores at most 0.3, and returns a candidate when some candidate scores more. A
  returned candidate is one of the list, scores strictly more than 0.3, and no candidate
  scores higher. The score is 1 on an exact match of the normalised strings and otherwise
  the maximum of the containment score 0.8 (or 0), the token-overlap ratio and 0.7 times
  the edit-distance similarity.
\<close>

theorem fuzzyMatchLocation_threshold:
  assumes "input \<noteq> []"
  shows "((\<forall>c \<in> set cs. candidateScore (normalizeStr input) c \<le> 0.3) \<longrightarrow>
            fuzzyMatchLocation input (Some cs) = None) \<and>
         ((\<exists>c \<in> set cs. candidateScore (normalizeStr input) c > 0.3) \<longrightarrow>
            fuzzyMatchLocation input (Some cs) \<noteq> None) \<and>
         (\<forall>m. fuzzyMatchLocation input (Some cs) = Some m \<longrightarrow>
            m \<in> set cs \<and> candidateScore (normalizeStr input) m > 0.3 \<and>
            (\<forall>c \<in> set cs. candidateScore (normalizeStr input) c \<le> candidateScore (normalizeStr input) m)) \<and>
         (\<forall>c. candidateScore (normalizeStr input) c =
            (if normalizeStr (name c) = normalizeStr input then 1
             else Max {if includesStr (normalizeStr (name c)) (normalizeStr input) \<or>
                          includesStr (normalizeStr input) (normalizeStr (name c)) then 0.8 else 0,
                       real (length (filter (\<lambda>word. word \<in> set (splitWhitespace [] (normalizeStr (name c))))
                                      (splitWhitespace [] (normalizeStr input)))) /
                       real (max (length (splitWhitespace [] (normalizeStr input)))
                                 (length (splitWhitespace [] (normalizeStr (name c))))),
                       (1 - real (levenshteinDistance (normalizeStr input) (normalizeStr (name c))) /
                            real (max (length (normalizeStr input)) (length (normalizeStr (name c))))) * 0.7}))"
proof -
  have low: "(\<forall>c \<in> set cs. candidateScore (normalizeStr input) c \<le> 0.3) \<longrightarrow>
            fuzzyMatchLocation input (Some cs) = None"
  proof
    assume low: "\<forall>c \<in> set cs. candidateScore (normalizeStr input) c \<le> 0.3"
    show "fuzzyMatchLocation input (Some cs) = None"
    proof (cases "cs = []")
      case True
      with assms show ?thesis by (simp add: fuzzyMatchLocation_unfold)
    next
      case False
      from best_entry(1,2)[OF False, of "normalizeStr input"] low
      show ?thesis
        unfolding fuzzyMatchLocation_unfold[OF assms] using False
        by (auto simp: Let_def)
    qed
  qed
  have high: "(\<exists>c \<in> set cs. candidateScore (normalizeStr input) c > 0.3) \<longrightarrow>
            fuzzyMatchLocation input (Some cs) \<noteq> None"
  proof
    assume "\<exists>c \<in> set cs. candidateScore (normalizeStr input) c > 0.3"
    then obtain c where c: "c \<in> set cs" "candidateScore (normalizeStr input) c > 0.3" by blast
    then have ne: "cs \<noteq> []" by auto
    from best_entry(3)[OF ne, of "normalizeStr input"] c
    show "fuzzyMatchLocation input (Some cs) \<noteq> None"
      unfolding fuzzyMatchLocation_unfold[OF assms] using ne
      by (auto simp: Let_def)
  qed
  have top: "\<forall>m. fuzzyMatchLocation input (Some cs) = Some m \<longrightarrow>
            m \<in> set cs \<and> candidateScore (normalizeStr input) m > 0.3 \<and>
            (\<forall>c \<in> set cs. candidateScore (normalizeStr input) c \<le> candidateScore (normalizeStr input) m)"
  proof (intro allI impI)
    fix m
    assume m: "fuzzyMatchLocation input (Some cs) = Some m"
    then have ne: "cs \<noteq> []"
      using assms by (auto simp: fuzzyMatchLocation_unfold)
    from m best_entry[OF ne, of "normalizeStr input"]
    show "m \<in> set cs \<and> candidateScore (normalizeStr input) m > 0.3 \<and>
            (\<forall>c \<in> set cs. candidateScore (normalizeStr input) c \<le> candidateScore (normalizeStr input) m)"
      unfolding fuzzyMatchLocation_unfold[OF assms] using ne
      by (auto simp: Let_def split: if_splits)
  qed
  have comp: "\<forall>c. candidateScore (normalizeStr input) c =
            (if normalizeStr (name c) = normalizeStr input then 1
             else Max {if includesStr (normalizeStr (name c)) (normalizeStr input) \<or>
                          includesStr (normalizeStr input) (normalizeStr (name c)) then 0.8 else 0,
                       real (length (filter (\<lambda>word. word \<in> set (splitWhitespace [] (normalizeStr (name c))))
                                      (splitWhitespace [] (normalizeStr input)))) /
                       real (max (length (splitWhitespace [] (normalizeStr input)))
                                 (length (splitWhitespace [] (normalizeStr (name c))))),
                       (1 - real (levenshteinDistance (normalizeStr input) (normalizeStr (name c))) /
                            real (max (length (normalizeStr input)) (length (normalizeStr (name c))))) * 0.7})"
  proof
    fix c
    show "candidateScore (normalizeStr input) c =
            (if normalizeStr (name c) = normalizeStr input then 1
             else Max {if includesStr (normalizeStr (name c)) (normalizeStr input) \<or>
                          includesStr (normalizeStr input) (normalizeStr (name c)) then 0.8 else 0,
                       real (length (filter (\<lambda>word. word \<in> set (splitWhitespace [] (normalizeStr (name c))))
                                      (splitWhitespace [] (normalizeStr input)))) /
                       real (max (length (splitWhitespace [] (normalizeStr input)))
                                 (length (splitWhitespace [] (normalizeStr (name c))))),
                       (1 - real (levenshteinDistance (normalizeStr input) (normalizeStr (name c))) /
                            real (max (length (normalizeStr input)) (length (normalizeStr (name c))))) * 0.7})"
    proof (cases "normalizeStr (name c) = normalizeStr input")
      case True
      then show ?thesis by (simp add: candidateScore_def)
    next
      case False
      then have "normalizeStr input \<noteq> [] \<or> normalizeStr (name c) \<noteq> []" by auto
      then have "max (length (normalizeStr input)) (length (normalizeStr (name c))) > 0"
        by (auto simp: max_def)
      with False have "candidateScore (normalizeStr input) c =
          max (max (if includesStr (normalizeStr (name c)) (normalizeStr input) \<or>
                          includesStr (normalizeStr input) (normalizeStr (name c)) then 0.8 else 0)
                   (real (length (filter (\<lambda>word. word \<in> set (splitWhitespace [] (normalizeStr (name c))))
                                      (splitWhitespace [] (normalizeStr input)))) /
                       real (max (length (splitWhitespace [] (normalizeStr input)))
                                 (length (splitWhitespace [] (normalizeStr (name c)))))))
              ((1 - real (levenshteinDistance (normalizeStr input) (normalizeStr (name c))) /
                            real (max (length (normalizeStr input)) (length (normalizeStr (name c))))) * 0.7)"
        unfolding candidateScore_def Let_def by (simp only: if_False if_True)
      with False show ?thesis
        by (simp only: Max_of_three if_False)
    qed
  qed
  from low high top comp show ?thesis by (intro conjI)
qed


theorem fuzzyMatchLocation_threshold_witness:
  "fuzzyMatchLocation ''zzz''
     (Some [\<lparr> name = ''MG Road'', loc_lat = 12.9756, loc_lng = 77.6064 \<rparr>,
            \<lparr> name = ''Majestic Bus Station'', loc_lat = 12.9774, loc_lng = 77.5711 \<rparr>]) = None"
proof -
  have ne: "''zzz'' \<noteq> []" by simp
  have s1: "candidateScore (normalizeStr ''zzz'')
      \<lparr> name = ''MG Road'', loc_lat = 12.9756, loc_lng = 77.6064 \<rparr> \<le> 0.3"
    by code_simp
  have s2: "candidateScore (normalizeStr ''zzz'')
      \<lparr> name = ''Majestic Bus Station'', loc_lat = 12.9774, loc_lng = 77.5711 \<rparr> \<le> 0.3"
    by code_simp
  from fuzzyMatchLocation_threshold[OF ne,
      of "[\<lparr> name = ''MG Road'', loc_lat = 12.9756, loc_lng = 77.6064 \<rparr>,
           \<lparr> name = ''Majestic Bus Station'', loc_lat = 12.9774, loc_lng = 77.5711 \<rparr>]"]
    s1 s2
  show ?thesis by simp
qed

end
